theory Spec2Isabelle
  imports Complex_Main
begin

section \<open>Values of the host language\<close>

text \<open>
  A JavaScript \<open>Date\<close> is modelled by its \<open>getTime()\<close> value, the milliseconds since the
  epoch. Counters are JavaScript numbers that only ever hold integers below \<open>2^53\<close>; they
  are modelled by \<open>int\<close>. Every other number is a double, modelled by the real number it
  denotes, and each division, product and sum of doubles is rounded to the nearest double.
  An operation that reads the clock takes the instant \<open>now\<close> as an argument; the several
  \<open>new Date()\<close> of one call are the same instant.
\<close>

type_synonym jsdate = int

definition msPerDay :: int where
  "msPerDay = 86400000"

text \<open>Rounding a real to the nearest integer, a tie going to the even one.\<close>

definition round_even :: "real \<Rightarrow> int" where
  "round_even y =
     (let f = \<lfloor>y\<rfloor>; r = y - real_of_int f
      in if r < 1 / 2 then f
         else if 1 / 2 < r then f + 1
         else if even f then f else f + 1)"

text \<open>
  The double nearest to a real: 53 significant bits, a tie going to the even significand.
  Overflow and subnormal numbers are not modelled; the quantities of this program stay far
  from both.
\<close>

definition fl :: "real \<Rightarrow> real" where
  "fl x =
     (if x = 0 then 0
      else (let e = \<lfloor>log 2 \<bar>x\<bar>\<rfloor>; u = 2 powr real_of_int (e - 52)
            in real_of_int (round_even (x / u)) * u))"

definition fadd :: "real \<Rightarrow> real \<Rightarrow> real" where
  "fadd a b = fl (a + b)"

definition fmul :: "real \<Rightarrow> real \<Rightarrow> real" where
  "fmul a b = fl (a * b)"

definition fdiv :: "real \<Rightarrow> real \<Rightarrow> real" where
  "fdiv a b = fl (a / b)"

text \<open>The result of a division whose divisor may be zero.\<close>

datatype js_number = Num real | NaN | PosInfinity | NegInfinity

definition js_div :: "real \<Rightarrow> real \<Rightarrow> js_number" where
  "js_div a b =
     (if b \<noteq> 0 then Num (fdiv a b)
      else if a = 0 then NaN
      else if 0 < a then PosInfinity else NegInfinity)"

text \<open>Truthiness of a string: the empty string is falsy.\<close>

definition truthy :: "string \<Rightarrow> bool" where
  "truthy s = (s \<noteq> [])"

text \<open>\<open>a || b\<close> on numbers: \<open>b\<close> when \<open>a\<close> is zero.\<close>

definition js_or :: "real \<Rightarrow> real \<Rightarrow> real" where
  "js_or a b = (if a = 0 then b else a)"

text \<open>\<open>Math.round\<close> of a double: the nearest integer, a tie going up.\<close>

definition js_round :: "real \<Rightarrow> int" where
  "js_round x = \<lfloor>x + 1 / 2\<rfloor>"

text \<open>\<open>Math.round(x * 100) / 100\<close>\<close>

definition round2 :: "real \<Rightarrow> real" where
  "round2 x = fdiv (real_of_int (js_round (fmul x 100))) 100"

text \<open>
  \<open>x.toFixed(2)\<close> of a double \<open>x\<close> yields the decimal string with two fraction digits
  nearest to the exact value of \<open>x\<close>, a tie going away from zero. The model returns the
  number that string denotes.
\<close>

definition toFixed2 :: "real \<Rightarrow> real" where
  "toFixed2 x =
     (if x < 0 then - (real_of_int \<lfloor>(- x) * 100 + 1 / 2\<rfloor> / 100)
      else real_of_int \<lfloor>x * 100 + 1 / 2\<rfloor> / 100)"

text \<open>\<open>xs.slice(-n)\<close> for a positive \<open>n\<close>: the last \<open>n\<close> elements, all of them when there are fewer.\<close>

definition slice_last :: "nat \<Rightarrow> 'a list \<Rightarrow> 'a list" where
  "slice_last n xs = drop (length xs - n) xs"

text \<open>\<open>xs.findIndex(p)\<close>, with \<open>None\<close> for the result \<open>-1\<close>.\<close>

fun findIndex :: "('a \<Rightarrow> bool) \<Rightarrow> 'a list \<Rightarrow> nat option" where
  "findIndex p [] = None"
| "findIndex p (x # xs) =
     (if p x then Some 0 else (case findIndex p xs of None \<Rightarrow> None | Some i \<Rightarrow> Some (Suc i)))"

text \<open>
  A map from category label to count, in insertion order: \<open>set\<close> on a present key keeps
  its place, on a new key appends.
\<close>

type_synonym counts = "(string \<times> int) list"

fun map_set :: "counts \<Rightarrow> string \<Rightarrow> int \<Rightarrow> counts" where
  "map_set [] k v = [(k, v)]"
| "map_set ((k', v') # m) k v = (if k' = k then (k, v) # m else (k', v') # map_set m k v)"

definition get_or0 :: "counts \<Rightarrow> string \<Rightarrow> int" where
  "get_or0 m k = (case map_of m k of None \<Rightarrow> 0 | Some v \<Rightarrow> v)"

section \<open>The link document\<close>

datatype url_status = Active | Inactive | Expired | Blocked

datatype redirect_type = Direct | Delayed | Interstitial

record link_settings =
  trackReferrer :: bool
  trackLocation :: bool
  trackDeviceInfo :: bool
  redirectType :: redirect_type
  redirectDelay :: int

text \<open>The answer of \<open>geoip.lookup\<close>; \<open>geo_ll\<close> is the pair latitude, longitude.\<close>

record geo_info =
  geo_country :: string
  geo_city :: string
  geo_region :: string
  geo_timezone :: string
  geo_ll :: "real \<times> real"

type_synonym geoip = "string \<Rightarrow> geo_info option"

text \<open>
  The value of \<open>timeOnPage\<close>: \<open>undefined\<close>, the \<open>NaN\<close> that \<open>parseInt\<close> returns for text
  without digits, or an integer.
\<close>

datatype time_value = Missing | Unparsed | Parsed int

text \<open>
  The object handed to \<open>recordClick\<close>, and an entry of the log. A field the caller may leave
  \<open>undefined\<close> is an option; \<open>location\<close> holds the coordinates longitude, latitude.
\<close>

record click_data =
  timestamp :: jsdate
  ipAddress :: string
  userAgent :: "string option"
  referrer :: string
  device :: string
  browser :: string
  browserVersion :: string
  os :: string
  platform :: string
  language :: string
  timeOnPage :: time_value
  exitPage :: "string option"
  country :: "string option"
  city :: "string option"
  region :: "string option"
  timezone :: "string option"
  location :: "(real \<times> real) option"

record daily_stat =
  date :: jsdate
  ds_clicks :: int
  ds_uniqueVisitors :: int
  countries :: counts
  devices :: counts
  browsers :: counts
  referrers :: counts
  timeOnPage_total :: int
  timeOnPage_count :: int
  bounceRate :: real

record visitor =
  v_ipAddress :: string
  firstVisit :: jsdate
  lastVisit :: jsdate
  totalVisits :: int
  v_averageTimeOnPage :: real

text \<open>
  The fields of the schema that the analytics and the expiration logic read or write. The
  QR code, the owner, the title, the description, the tags, the custom domain and the
  password play no part in them and are left out.
\<close>

record url =
  originalUrl :: string
  shortCode :: string
  customAlias :: "string option"
  status :: url_status
  expiresAt :: "jsdate option"
  isExpired :: bool
  clicks :: int
  uniqueClicks :: int
  analytics :: "click_data list"
  dailyStats :: "daily_stat list"
  uniqueVisitors :: "visitor list"
  settings :: link_settings
  createdAt :: jsdate
  updatedAt :: jsdate

section \<open>Saving and expiration\<close>

text \<open>
  The \<open>pre('save')\<close> hook of the schema.
\<close>

definition pre_save :: "jsdate \<Rightarrow> url \<Rightarrow> url" where
  "pre_save now u =
     (let u1 = u\<lparr>updatedAt := now\<rparr> in
      case expiresAt u1 of
        None \<Rightarrow> u1
      | Some e \<Rightarrow>
          (let u2 = u1\<lparr>isExpired := (now > e)\<rparr> in
           if isExpired u2 then u2\<lparr>status := Expired\<rparr> else u2))"

text \<open>
  An entry of the log passes validation when its device is one of the schema's four and its
  time on page was not \<open>NaN\<close> (which fails to cast to a number).
\<close>

definition valid_event :: "click_data \<Rightarrow> bool" where
  "valid_event e =
     ((device e = ''desktop'' \<or> device e = ''mobile'' \<or> device e = ''tablet''
         \<or> device e = ''other'')
      \<and> timeOnPage e \<noteq> Unparsed)"

text \<open>
  The validators that \<open>save()\<close> runs before the hook: the schema's validator of \<open>expiresAt\<close>
  (\<open>!v || v > new Date()\<close>), run on every save, and those of the log's entries. The
  validators of the fields that no operation here writes are taken to pass.
\<close>

definition validates :: "jsdate \<Rightarrow> url \<Rightarrow> bool" where
  "validates now u =
     ((case expiresAt u of None \<Rightarrow> True | Some e \<Rightarrow> e > now) \<and> list_all valid_event (analytics u))"

text \<open>
  \<open>save()\<close>: when validation fails the save is rejected, the hook does not run and the
  document in memory stays as it is; otherwise the hook runs. The result says whether the
  save was accepted. The write to the database is outside the model.
\<close>

definition save :: "jsdate \<Rightarrow> url \<Rightarrow> bool \<times> url" where
  "save now u = (if validates now u then (True, pre_save now u) else (False, u))"

text \<open>\<open>checkExpiration()\<close>; the save it starts is not awaited, and its outcome is dropped.\<close>

definition checkExpiration :: "jsdate \<Rightarrow> url \<Rightarrow> bool \<times> url" where
  "checkExpiration now u =
     (case expiresAt u of
        None \<Rightarrow> (False, u)
      | Some e \<Rightarrow>
          (let expired = (now > e) in
           if expired \<and> \<not> isExpired u
           then (expired, snd (save now (u\<lparr>isExpired := True, status := Expired\<rparr>)))
           else (expired, u)))"

section \<open>Recording a click\<close>

text \<open>
  The arrays and maps of the document are Mongoose's. Pushing a plain object onto an array
  stores a copy cast to the schema, with the schema's defaults for the fields the object
  leaves out; what the code does to the plain object afterwards does not reach the stored
  copy. \<open>set\<close> on a map of a stored entry checks the key and throws when the check
  fails. That check is not in the sources and is an argument of the model (\<open>key_ok\<close>);
  Mongoose rejects at least every key that contains a dot.
\<close>

type_synonym key_check = "string \<Rightarrow> bool"

text \<open>The geolocation block at the head of \<open>recordClick\<close>.\<close>

definition enrich :: "geoip \<Rightarrow> link_settings \<Rightarrow> click_data \<Rightarrow> click_data" where
  "enrich lookup st data =
     (if truthy (ipAddress data) \<and> trackLocation st then
        (case lookup (ipAddress data) of
           None \<Rightarrow> data
         | Some geo \<Rightarrow>
             data\<lparr>country := Some (geo_country geo),
                  city := Some (geo_city geo),
                  region := Some (geo_region geo),
                  timezone := Some (geo_timezone geo),
                  location := Some (snd (geo_ll geo), fst (geo_ll geo))\<rparr>)
      else data)"

text \<open>
  The copy of an event that \<open>analytics.push\<close> stores: the schema's defaults (the empty
  string, the coordinates \<open>[0, 0]\<close>, the time 0) stand in for the fields left \<open>undefined\<close>.
  A time on page that is \<open>NaN\<close> fails to cast and stays marked as such.
\<close>

definition or_empty :: "string option \<Rightarrow> string" where
  "or_empty s = (case s of None \<Rightarrow> [] | Some v \<Rightarrow> v)"

definition cast_event :: "click_data \<Rightarrow> click_data" where
  "cast_event d =
     d\<lparr>timeOnPage := (case timeOnPage d of Missing \<Rightarrow> Parsed 0 | Unparsed \<Rightarrow> Unparsed
                        | Parsed t \<Rightarrow> Parsed t),
       exitPage := Some (or_empty (exitPage d)),
       country := Some (or_empty (country d)),
       city := Some (or_empty (city d)),
       region := Some (or_empty (region d)),
       timezone := Some (or_empty (timezone d)),
       location := Some (case location d of None \<Rightarrow> (0, 0) | Some p \<Rightarrow> p)\<rparr>"

text \<open>\<open>today.setHours(0, 0, 0, 0)\<close> for a server whose local time is UTC.\<close>

definition setHours0 :: "jsdate \<Rightarrow> jsdate" where
  "setHours0 t = t - t mod msPerDay"

definition new_visitor :: "jsdate \<Rightarrow> string \<Rightarrow> visitor" where
  "new_visitor now ip =
     \<lparr>v_ipAddress = ip, firstVisit = now, lastVisit = now, totalVisits = 1,
      v_averageTimeOnPage = 0\<rparr>"

definition new_daily_stat :: "jsdate \<Rightarrow> daily_stat" where
  "new_daily_stat today =
     \<lparr>date = today, ds_clicks = 0, ds_uniqueVisitors = 0, countries = [], devices = [],
      browsers = [], referrers = [], timeOnPage_total = 0, timeOnPage_count = 0,
      bounceRate = 0\<rparr>"

text \<open>\<open>this.clicks += 1\<close> and the block on the ledger of unique visitors.\<close>

definition count_visit :: "jsdate \<Rightarrow> click_data \<Rightarrow> url \<Rightarrow> url" where
  "count_visit now data u =
     (let visitorIndex = findIndex (\<lambda>v. v_ipAddress v = ipAddress data) (uniqueVisitors u);
          u1 = u\<lparr>clicks := clicks u + 1\<rparr>
      in case visitorIndex of
           None \<Rightarrow>
             u1\<lparr>uniqueClicks := uniqueClicks u1 + 1,
                uniqueVisitors := uniqueVisitors u1 @ [new_visitor now (ipAddress data)]\<rparr>
         | Some i \<Rightarrow>
             u1\<lparr>uniqueVisitors :=
                  (uniqueVisitors u1)
                    [i := (uniqueVisitors u1 ! i)
                            \<lparr>lastVisit := now,
                             totalVisits := totalVisits (uniqueVisitors u1 ! i) + 1\<rparr>]\<rparr>)"

definition bump :: "counts \<Rightarrow> string \<Rightarrow> counts" where
  "bump m k = map_set m k (get_or0 m k + 1)"

text \<open>
  \<open>if (label) map.set(label, (map.get(label) || 0) + 1)\<close> on a map of a stored entry;
  \<open>None\<close> when \<open>set\<close> throws.
\<close>

definition set_label :: "key_check \<Rightarrow> string \<Rightarrow> counts \<Rightarrow> counts option" where
  "set_label key_ok label m =
     (if truthy label then (if key_ok label then Some (bump m label) else None) else Some m)"

text \<open>
  The updates of a stored entry of the day, from \<open>dailyStat.clicks += 1\<close> to the time on
  page, in the order of the code. The result is the entry as the updates leave it and
  whether they ran to the end: a \<open>set\<close> that throws ends them.
\<close>

definition update_daily_stat ::
    "key_check \<Rightarrow> bool \<Rightarrow> click_data \<Rightarrow> daily_stat \<Rightarrow> bool \<times> daily_stat" where
  "update_daily_stat key_ok isNew data s =
     (let s1 = s\<lparr>ds_clicks := ds_clicks s + 1\<rparr>;
          s2 = (if isNew then s1\<lparr>ds_uniqueVisitors := ds_uniqueVisitors s1 + 1\<rparr> else s1)
      in case set_label key_ok (or_empty (country data)) (countries s2) of
           None \<Rightarrow> (False, s2)
         | Some cs \<Rightarrow>
      (let s3 = s2\<lparr>countries := cs\<rparr>
       in case set_label key_ok (device data) (devices s3) of
            None \<Rightarrow> (False, s3)
          | Some dv \<Rightarrow>
      (let s4 = s3\<lparr>devices := dv\<rparr>
       in case set_label key_ok (browser data) (browsers s4) of
            None \<Rightarrow> (False, s4)
          | Some bs \<Rightarrow>
      (let s5 = s4\<lparr>browsers := bs\<rparr>
       in case set_label key_ok (referrer data) (referrers s5) of
            None \<Rightarrow> (False, s5)
          | Some rs \<Rightarrow>
      (let s6 = s5\<lparr>referrers := rs\<rparr>
       in (True,
           (case timeOnPage data of
              Parsed t \<Rightarrow>
                if t \<noteq> 0
                then s6\<lparr>timeOnPage_total := timeOnPage_total s6 + t,
                        timeOnPage_count := timeOnPage_count s6 + 1\<rparr>
                else s6
            | Missing \<Rightarrow> s6
            | Unparsed \<Rightarrow> s6)))))))"

text \<open>
  Finding the day's entry and updating it in place. When there is none, the code pushes a
  plain object with zero counts and updates that object: the stored copy keeps the zero
  counts, and nothing can throw.
\<close>

definition touch_today ::
    "key_check \<Rightarrow> jsdate \<Rightarrow> bool \<Rightarrow> click_data \<Rightarrow> daily_stat list \<Rightarrow> bool \<times> daily_stat list" where
  "touch_today key_ok today isNew data ds =
     (case findIndex (\<lambda>stat. date stat = today) ds of
        None \<Rightarrow> (True, ds @ [new_daily_stat today])
      | Some i \<Rightarrow>
          (case update_daily_stat key_ok isNew data (ds ! i) of
             (ok, s) \<Rightarrow> (ok, ds[i := s])))"

text \<open>\<open>this.analytics.push(data)\<close> and the two cuts that follow it.\<close>

definition append_event :: "click_data \<Rightarrow> url \<Rightarrow> url" where
  "append_event data u =
     (let u4 = u\<lparr>analytics := analytics u @ [cast_event data]\<rparr>;
          u5 = (if length (analytics u4) > 1000
                then u4\<lparr>analytics := slice_last 1000 (analytics u4)\<rparr> else u4);
          u6 = (if length (dailyStats u5) > 30
                then u5\<lparr>dailyStats := slice_last 30 (dailyStats u5)\<rparr> else u5)
      in u6)"

text \<open>How a call of \<open>recordClick\<close> ends: its promise resolves, or it is rejected by the save or
  by an exception in the body.\<close>

datatype outcome = Saved | Rejected | Threw

text \<open>
  \<open>recordClick(data)\<close>: the outcome and the document as the call leaves it in memory.
\<close>

definition recordClick_run ::
    "key_check \<Rightarrow> geoip \<Rightarrow> jsdate \<Rightarrow> click_data \<Rightarrow> url \<Rightarrow> outcome \<times> url" where
  "recordClick_run key_ok lookup now data0 u =
     (let data = enrich lookup (settings u) data0;
          isNew = (findIndex (\<lambda>v. v_ipAddress v = ipAddress data) (uniqueVisitors u) = None);
          u2 = count_visit now data u
      in case touch_today key_ok (setHours0 now) isNew data (dailyStats u2) of
           (False, ds) \<Rightarrow> (Threw, u2\<lparr>dailyStats := ds\<rparr>)
         | (True, ds) \<Rightarrow>
             (case save now (append_event data (u2\<lparr>dailyStats := ds\<rparr>)) of
                (True, v) \<Rightarrow> (Saved, v)
              | (False, v) \<Rightarrow> (Rejected, v)))"

definition recordClick :: "key_check \<Rightarrow> geoip \<Rightarrow> jsdate \<Rightarrow> click_data \<Rightarrow> url \<Rightarrow> url" where
  "recordClick key_ok lookup now data0 u = snd (recordClick_run key_ok lookup now data0 u)"

text \<open>A sequence of calls on one document, each at its own instant.\<close>

fun recordClicks :: "key_check \<Rightarrow> geoip \<Rightarrow> (jsdate \<times> click_data) list \<Rightarrow> url \<Rightarrow> url" where
  "recordClicks key_ok lookup [] u = u"
| "recordClicks key_ok lookup (c # cs) u =
     recordClicks key_ok lookup cs (recordClick key_ok lookup (fst c) (snd c) u)"


text \<open>The labels of an event that the day's maps would take all pass the key check.\<close>

definition labels_ok :: "key_check \<Rightarrow> click_data \<Rightarrow> bool" where
  "labels_ok key_ok d =
     ((if truthy (or_empty (country d)) then key_ok (or_empty (country d)) else True) \<and>
      (if truthy (device d) then key_ok (device d) else True) \<and>
      (if truthy (browser d) then key_ok (browser d) else True) \<and>
      (if truthy (referrer d) then key_ok (referrer d) else True))"

text \<open>The addresses in the ledger of unique visitors.\<close>

definition ledger_ips :: "url \<Rightarrow> string set" where
  "ledger_ips u = v_ipAddress ` set (uniqueVisitors u)"

text \<open>The day's entry that a call works on.\<close>

definition today_of ::
    "key_check \<Rightarrow> geoip \<Rightarrow> jsdate \<Rightarrow> click_data \<Rightarrow> url \<Rightarrow> bool \<times> daily_stat list" where
  "today_of key_ok lookup now d u =
     touch_today key_ok (setHours0 now) (ipAddress d \<notin> ledger_ips u)
       (enrich lookup (settings u) d) (dailyStats u)"

section \<open>Summarising a link\<close>

record day_point =
  dp_date :: jsdate
  dp_clicks :: int
  dp_uniqueVisitors :: int
  dp_averageTimeOnPage :: real
  dp_bounceRate :: real

record analytics_summary =
  totalClicks :: int
  sum_uniqueClicks :: int
  recentClicks :: int
  clicksByDay :: "day_point list"
  topCountries :: counts
  topDevices :: counts
  topBrowsers :: counts
  topReferrers :: counts
  averageTimeOnPage :: js_number
  averageClicksPerDay :: real
  conversionRate :: real

text \<open>\<open>stat.timeOnPage.count ? stat.timeOnPage.total / stat.timeOnPage.count : 0\<close>\<close>

definition day_average :: "daily_stat \<Rightarrow> real" where
  "day_average stat =
     (if timeOnPage_count stat \<noteq> 0
      then fdiv (real_of_int (timeOnPage_total stat)) (real_of_int (timeOnPage_count stat))
      else 0)"

definition add_count :: "counts \<Rightarrow> string \<times> int \<Rightarrow> counts" where
  "add_count aggregated e = map_set aggregated (fst e) (get_or0 aggregated (fst e) + snd e)"

text \<open>
  \<open>getTopFromMaps(stats, key, limit)\<close>; \<open>key\<close> is the selector of one of the four maps.
  The sort by descending count is stable, as \<open>Array.prototype.sort\<close> is.
\<close>

definition getTopFromMaps :: "daily_stat list \<Rightarrow> (daily_stat \<Rightarrow> counts) \<Rightarrow> nat \<Rightarrow> counts" where
  "getTopFromMaps stats key limit =
     take limit
       (sort_key (\<lambda>e. - snd e)
          (foldl (\<lambda>aggregated stat. foldl add_count aggregated (key stat)) [] stats))"

text \<open>
  \<open>getAnalyticsSummary(days)\<close>. The cutoff \<open>setDate(getDate() - days)\<close> is \<open>days\<close> whole days
  before \<open>now\<close> (a server whose local time is UTC). \<open>conversionRate\<close> is the number zero or the
  number denoted by the string that \<open>toFixed(2)\<close> returns.
\<close>

definition getAnalyticsSummary :: "jsdate \<Rightarrow> int \<Rightarrow> url \<Rightarrow> analytics_summary" where
  "getAnalyticsSummary now days u =
     (let cutoffDate = now - days * msPerDay;
          recentStats = filter (\<lambda>stat. date stat \<ge> cutoffDate) (dailyStats u)
      in \<lparr>totalClicks = clicks u,
          sum_uniqueClicks = uniqueClicks u,
          recentClicks = foldl (\<lambda>sum stat. sum + ds_clicks stat) 0 recentStats,
          clicksByDay =
            map (\<lambda>stat. \<lparr>dp_date = date stat, dp_clicks = ds_clicks stat,
                          dp_uniqueVisitors = ds_uniqueVisitors stat,
                          dp_averageTimeOnPage = day_average stat,
                          dp_bounceRate = bounceRate stat\<rparr>) recentStats,
          topCountries = getTopFromMaps recentStats countries 10,
          topDevices = getTopFromMaps recentStats devices 10,
          topBrowsers = getTopFromMaps recentStats browsers 10,
          topReferrers = getTopFromMaps recentStats referrers 10,
          averageTimeOnPage =
            js_div (foldl (\<lambda>sum stat. fadd sum (day_average stat)) 0 recentStats)
                   (real (length recentStats)),
          averageClicksPerDay =
            (if length recentStats \<noteq> 0
             then fdiv (real_of_int (foldl (\<lambda>sum stat. sum + ds_clicks stat) 0 recentStats))
                       (real (length recentStats))
             else 0),
          conversionRate =
            (if uniqueClicks u \<noteq> 0
             then toFixed2 (fdiv (real_of_int (clicks u)) (real_of_int (uniqueClicks u)))
             else 0)\<rparr>)"

section \<open>The redirect route\<close>

text \<open>
  What the route reads of a request: the address, three headers and the two query
  parameters. \<open>q_timeOnPage\<close> is the value of
  \<open>req.query.timeOnPage ? parseInt(req.query.timeOnPage) : undefined\<close>.
\<close>

record request =
  req_ip :: string
  h_user_agent :: "string option"
  h_referer :: "string option"
  h_accept_language :: "string option"
  q_timeOnPage :: time_value
  q_exitPage :: "string option"

text \<open>The fields the route reads of the object that \<open>useragent.parse\<close> returns.\<close>

record visitor_agent =
  isMobile :: bool
  isTablet :: bool
  ua_browser :: string
  ua_version :: string
  ua_os :: string
  ua_platform :: string

text \<open>
  \<open>useragent.parse\<close> on the text of a \<open>User-Agent\<close> header. The parser is not in the
  sources and is an argument of the model. On \<open>undefined\<close>, the value of a missing header,
  it throws.
\<close>

type_synonym ua_parser = "string \<Rightarrow> visitor_agent"

text \<open>The object \<open>analyticsData\<close> that the route builds for a request with the header \<open>h\<close>.\<close>

definition analyticsData :: "jsdate \<Rightarrow> request \<Rightarrow> string \<Rightarrow> visitor_agent \<Rightarrow> click_data" where
  "analyticsData now req h ua =
     \<lparr>timestamp = now,
      ipAddress = req_ip req,
      userAgent = Some h,
      referrer = (case h_referer req of None \<Rightarrow> [] | Some r \<Rightarrow> r),
      device = (if isMobile ua then ''mobile'' else if isTablet ua then ''tablet'' else ''desktop''),
      browser = ua_browser ua,
      browserVersion = ua_version ua,
      os = ua_os ua,
      platform = ua_platform ua,
      language =
        (case h_accept_language req of
           None \<Rightarrow> ''unknown''
         | Some l \<Rightarrow>
             (let first = takeWhile (\<lambda>c. c \<noteq> CHR '','') l
              in if truthy first then first else ''unknown'')),
      timeOnPage = q_timeOnPage req,
      exitPage = q_exitPage req,
      country = None, city = None, region = None, timezone = None, location = None\<rparr>"

datatype response =
    Status404
  | Status410
  | Status500
  | DelayedPage int string
  | RedirectTo string

text \<open>
  The handler \<open>router.get('/:shortCode')\<close> of \<open>routes/urls.js\<close>, from the answer of
  \<open>Url.findOne\<close> on. The result is the response and the document as the handler leaves it
  in memory. Parsing a missing \<open>User-Agent\<close> header throws inside the \<open>try\<close>, and the
  \<open>catch\<close> answers 500. A \<open>recordClick\<close> that fails is only logged. In its router the
  handler stands behind \<open>router.get('/:id')\<close>, which takes the same paths first; the model
  is of the handler, not of the routing.
\<close>

definition redirect_route ::
    "key_check \<Rightarrow> geoip \<Rightarrow> ua_parser \<Rightarrow> jsdate \<Rightarrow> request \<Rightarrow> url option
       \<Rightarrow> response \<times> url option" where
  "redirect_route key_ok lookup parse now req found =
     (case found of
        None \<Rightarrow> (Status404, None)
      | Some u \<Rightarrow>
          (case checkExpiration now u of
             (True, u') \<Rightarrow> (Status410, Some u')
           | (False, u') \<Rightarrow>
               (case h_user_agent req of
                  None \<Rightarrow> (Status500, Some u')
                | Some h \<Rightarrow>
                    (let ua = parse h;
                         data = analyticsData now req h ua;
                         u'' = recordClick key_ok lookup now data u'
                     in (if redirectType (settings u'') = Delayed
                         then DelayedPage (redirectDelay (settings u'')) (originalUrl u'')
                         else RedirectTo (originalUrl u''),
                         Some u'')))))"

text \<open>The response sends the visitor on to the target, at once or after the delay.\<close>

fun sends_to :: "response \<Rightarrow> string \<Rightarrow> bool" where
  "sends_to (RedirectTo t) target = (t = target)"
| "sends_to (DelayedPage d t) target = (t = target)"
| "sends_to Status404 target = False"
| "sends_to Status410 target = False"
| "sends_to Status500 target = False"

text \<open>The rule of the specification's expiration policy, in its words.\<close>

definition redirectable_spec :: "jsdate \<Rightarrow> url \<Rightarrow> bool" where
  "redirectable_spec now u =
     (status u \<noteq> Expired \<and> status u \<noteq> Blocked \<and>
      (case expiresAt u of None \<Rightarrow> True | Some e \<Rightarrow> e > now))"

section \<open>The portfolio statistics\<close>

text \<open>
  Two handlers answer \<open>/stats/summary\<close>. The first works on the small link model
  (\<open>clicks\<close>, \<open>createdAt\<close>, \<open>lastClickedAt\<close>); the second on the document above. In both,
  \<open>lastMonth\<close> is the instant \<open>setMonth(getMonth() - 1)\<close> yields, taken as an argument.
\<close>

record small_url =
  su_clicks :: int
  su_createdAt :: jsdate
  su_lastClickedAt :: "jsdate option"

record small_stats =
  st_totalUrls :: int
  st_totalClicks :: int
  st_activeUrls :: int
  urlsGrowth :: real
  clicksGrowth :: real

text \<open>
  The \<open>$match\<close>/\<open>$group\<close> pipeline: no row when no link matches, else one row with the sum.
\<close>

definition aggregate_clicks :: "jsdate \<Rightarrow> small_url list \<Rightarrow> int list" where
  "aggregate_clicks lastMonth urls =
     (let matched = filter (\<lambda>url. su_createdAt url \<le> lastMonth) urls
      in if matched = [] then [] else [sum_list (map su_clicks matched)])"

definition stats_summary_small :: "jsdate \<Rightarrow> jsdate \<Rightarrow> small_url list \<Rightarrow> small_stats" where
  "stats_summary_small now lastMonth urls =
     (let totalUrls = int (length urls);
          totalClicks = foldl (\<lambda>sum url. sum + su_clicks url) 0 urls;
          thirtyDaysAgo = now - 30 * msPerDay;
          activeUrls =
            int (length (filter (\<lambda>url. case su_lastClickedAt url of
                                         None \<Rightarrow> False | Some t \<Rightarrow> t \<ge> thirtyDaysAgo) urls));
          lastMonthUrls = int (length (filter (\<lambda>url. su_createdAt url \<le> lastMonth) urls));
          lastMonthClicks = aggregate_clicks lastMonth urls;
          growthUrls =
            (if lastMonthUrls = 0 then 100
             else fmul (fdiv (real_of_int (totalUrls - lastMonthUrls))
                             (real_of_int lastMonthUrls)) 100);
          growthClicks =
            (case lastMonthClicks of
               [] \<Rightarrow> 100
             | row # _ \<Rightarrow>
                 fmul (fdiv (js_or (real_of_int (totalClicks - row)) 0)
                            (js_or (real_of_int row) 1)) 100)
      in \<lparr>st_totalUrls = totalUrls,
          st_totalClicks = totalClicks,
          st_activeUrls = activeUrls,
          urlsGrowth = round2 growthUrls,
          clicksGrowth = round2 growthClicks\<rparr>)"

text \<open>
  The second handler; its leaderboard and its device, browser and country tallies are
  left out.
\<close>

record portfolio_stats =
  ps_totalUrls :: int
  ps_totalClicks :: int
  ps_activeUrls :: int
  urlGrowth :: real
  clickGrowth :: real
  averageClicksPerUrl :: int
  ps_conversionRate :: int

definition stats_summary :: "jsdate \<Rightarrow> url list \<Rightarrow> portfolio_stats" where
  "stats_summary lastMonth urls =
     (let totalUrls = int (length urls);
          totalClicks = foldl (\<lambda>sum url. sum + clicks url) 0 urls;
          activeUrls = int (length (filter (\<lambda>url. status url = Active) urls));
          urlsLastMonth = filter (\<lambda>url. createdAt url \<ge> lastMonth) urls;
          growthUrls =
            (if totalUrls \<noteq> 0
             then fmul (fdiv (real (length urlsLastMonth)) (real_of_int totalUrls)) 100 else 0);
          clicksLastMonth =
            foldl (\<lambda>sum url.
                     sum + int (length (filter (\<lambda>a. timestamp a \<ge> lastMonth) (analytics url))))
                  0 urls;
          growthClicks =
            (if totalClicks \<noteq> 0
             then fmul (fdiv (real_of_int clicksLastMonth) (real_of_int totalClicks)) 100 else 0)
      in \<lparr>ps_totalUrls = totalUrls,
          ps_totalClicks = totalClicks,
          ps_activeUrls = activeUrls,
          urlGrowth = round2 growthUrls,
          clickGrowth = round2 growthClicks,
          averageClicksPerUrl =
            (if totalUrls \<noteq> 0
             then js_round (fdiv (real_of_int totalClicks) (real_of_int totalUrls)) else 0),
          ps_conversionRate =
            (if totalClicks \<noteq> 0
             then js_round
                    (fmul (fdiv (real_of_int (foldl (\<lambda>sum url. sum + uniqueClicks url) 0 urls))
                                (real_of_int totalClicks)) 100)
             else 0)\<rparr>)"

section \<open>Sample data\<close>

definition sample_settings :: link_settings where
  "sample_settings =
     \<lparr>trackReferrer = True, trackLocation = True, trackDeviceInfo = True,
      redirectType = Direct, redirectDelay = 0\<rparr>"

text \<open>A link as the schema's defaults create it, with no expiration.\<close>

definition sample_url :: url where
  "sample_url =
     \<lparr>originalUrl = ''https://example.org/'', shortCode = ''abc123'', customAlias = None,
      status = Active, expiresAt = None, isExpired = False, clicks = 0, uniqueClicks = 0,
      analytics = [], dailyStats = [], uniqueVisitors = [], settings = sample_settings,
      createdAt = 1000, updatedAt = 1000\<rparr>"

text \<open>A key check that rejects the keys with a dot.\<close>

definition no_dot :: key_check where
  "no_dot k = (CHR ''.'' \<notin> set k)"

definition no_geo :: geoip where
  "no_geo ip = None"

definition sample_geo :: geoip where
  "sample_geo ip =
     (if ip = ''8.8.8.8''
      then Some \<lparr>geo_country = ''US'', geo_city = ''Mountain View'', geo_region = ''CA'',
                 geo_timezone = ''America/Los_Angeles'', geo_ll = (37, -122)\<rparr>
      else None)"

definition sample_agent :: visitor_agent where
  "sample_agent =
     \<lparr>isMobile = False, isTablet = False, ua_browser = ''unknown'', ua_version = ''unknown'',
      ua_os = ''unknown'', ua_platform = ''unknown''\<rparr>"

definition sample_parser :: ua_parser where
  "sample_parser h = sample_agent"

definition sample_request :: "string \<Rightarrow> request" where
  "sample_request ip =
     \<lparr>req_ip = ip, h_user_agent = Some ''zzz'', h_referer = None, h_accept_language = None,
      q_timeOnPage = Missing, q_exitPage = None\<rparr>"

definition sample_click :: "string \<Rightarrow> click_data" where
  "sample_click ip = analyticsData 5000 (sample_request ip) ''zzz'' sample_agent"

definition expiring_url :: url where
  "expiring_url = sample_url\<lparr>expiresAt := Some 4000\<rparr>"

definition blocked_url :: url where
  "blocked_url = sample_url\<lparr>status := Blocked\<rparr>"

definition dated_url :: url where
  "dated_url = sample_url\<lparr>status := Blocked, expiresAt := Some 5000\<rparr>"

definition quiet_url :: url where
  "quiet_url = sample_url\<lparr>settings := sample_settings\<lparr>trackDeviceInfo := False\<rparr>\<rparr>"

definition twice_clicked :: url where
  "twice_clicked =
     recordClicks no_dot no_geo
       [(5000, sample_click ''10.0.0.1''), (6000, sample_click ''10.0.0.1'')] sample_url"

definition two_small_urls :: "small_url list" where
  "two_small_urls =
     [\<lparr>su_clicks = 0, su_createdAt = 1000, su_lastClickedAt = None\<rparr>,
      \<lparr>su_clicks = 10, su_createdAt = 9000, su_lastClickedAt = Some 9500\<rparr>]"

definition two_urls :: "url list" where
  "two_urls =
     [sample_url\<lparr>clicks := 10, uniqueClicks := 4, createdAt := 1000\<rparr>,
      sample_url\<lparr>createdAt := 9000\<rparr>]"

text \<open>A portfolio of 160 links older than a month and 23 newer ones.\<close>

definition many_small_urls :: "small_url list" where
  "many_small_urls =
     replicate 160 \<lparr>su_clicks = 0, su_createdAt = 1000, su_lastClickedAt = None\<rparr>
     @ replicate 23 \<lparr>su_clicks = 0, su_createdAt = 9000, su_lastClickedAt = None\<rparr>"


definition dotted_click :: click_data where
  "dotted_click = (sample_click ''10.0.0.1'')\<lparr>referrer := ''https://example.org/''\<rparr>"

definition once_clicked :: url where
  "once_clicked = recordClick no_dot no_geo 5000 (sample_click ''10.0.0.1'') sample_url"

section \<open>Basic facts\<close>

lemma round_even_of_int: "round_even (real_of_int z) = z"
  by (simp add: round_even_def Let_def)

lemma fl_dyadic:
  assumes "\<bar>n\<bar> < 2 ^ 53"
  shows "fl (real_of_int n * 2 powr real_of_int k) = real_of_int n * 2 powr real_of_int k"
proof (cases "n = 0")
  case True
  then show ?thesis by (simp add: fl_def)
next
  case False
  define a where "a = \<bar>real_of_int n\<bar>"
  define x where "x = real_of_int n * 2 powr real_of_int k"
  define m where "m = \<lfloor>log 2 a\<rfloor>"
  have a1: "1 \<le> a" using False by (simp add: a_def)
  have a0: "0 < a" using a1 by linarith
  have "real_of_int \<bar>n\<bar> < real_of_int (2 ^ 53)" using assms by (simp only: of_int_less_iff)
  then have a2: "a < 2 powr 53" by (simp add: a_def)
  have x0: "x \<noteq> 0" using False by (simp add: x_def)
  have ax: "\<bar>x\<bar> = a * 2 powr real_of_int k"
    by (simp add: x_def a_def abs_mult)
  have lg: "log 2 \<bar>x\<bar> = log 2 a + real_of_int k"
    using a0 by (simp add: ax log_mult)
  have m0: "0 \<le> m"
    using a1 a0 by (simp add: m_def)
  have "log 2 a < 53"
    using a0 a2 by (simp add: log_less_iff)
  then have m52: "m \<le> 52"
    by (simp add: m_def floor_le_iff)
  have e: "\<lfloor>log 2 \<bar>x\<bar>\<rfloor> = m + k"
    unfolding lg m_def by (rule floor_add_int[symmetric])
  define j where "j = nat (52 - m)"
  have jr: "real j = real_of_int (52 - m)" using m52 by (simp add: j_def)
  have p: "(2::real) powr real_of_int (52 - m) = 2 ^ j"
    using powr_realpow[of "2::real" j] by (simp add: jr)
  have q: "x / 2 powr real_of_int (m + k - 52) = real_of_int (n * 2 ^ j)"
  proof -
    have "x / 2 powr real_of_int (m + k - 52)
        = real_of_int n * (2 powr real_of_int k / 2 powr real_of_int (m + k - 52))"
      by (simp add: x_def)
    also have "2 powr real_of_int k / 2 powr real_of_int (m + k - 52)
        = (2::real) powr (real_of_int k - real_of_int (m + k - 52))"
      by (simp only: powr_diff)
    also have "real_of_int k - real_of_int (m + k - 52) = real_of_int (52 - m)"
      by simp
    finally have "x / 2 powr real_of_int (m + k - 52) = real_of_int n * 2 ^ j"
      by (simp only: p)
    then show ?thesis by simp
  qed
  have "fl x = real_of_int (round_even (x / 2 powr real_of_int (\<lfloor>log 2 \<bar>x\<bar>\<rfloor> - 52)))
                 * 2 powr real_of_int (\<lfloor>log 2 \<bar>x\<bar>\<rfloor> - 52)"
    using x0 by (simp add: fl_def Let_def)
  also have "\<dots> = real_of_int (n * 2 ^ j) * 2 powr real_of_int (m + k - 52)"
    by (simp only: e q round_even_of_int)
  also have "\<dots> = real_of_int n * ((2::real) powr real_of_int (52 - m) * 2 powr real_of_int (m + k - 52))"
    by (simp only: p) simp
  also have "(2::real) powr real_of_int (52 - m) * 2 powr real_of_int (m + k - 52)
      = 2 powr (real_of_int (52 - m) + real_of_int (m + k - 52))"
    by (simp only: powr_add)
  also have "real_of_int (52 - m) + real_of_int (m + k - 52) = real_of_int k"
    by simp
  finally show ?thesis by (simp add: x_def)
qed

lemma fl_of_int: "\<bar>n\<bar> < 2 ^ 53 \<Longrightarrow> fl (real_of_int n) = real_of_int n"
  using fl_dyadic[of n 0] by simp

lemma two_powr_minus_one: "(2::real) powr real_of_int (- 1) = 1 / 2"
  using powr_real_of_int[of "2::real" "- 1"] by simp

lemma fl_half_of_int:
  assumes "\<bar>n\<bar> < 2 ^ 53"
  shows "fl (real_of_int n / 2) = real_of_int n / 2"
proof -
  have "real_of_int n * 2 powr real_of_int (- 1) = real_of_int n / 2"
    by (simp only: two_powr_minus_one) 
  with fl_dyadic[OF assms, of "- 1"] show ?thesis by (simp only:)
qed

lemma findIndex_None_iff: "findIndex p xs = None \<longleftrightarrow> (\<forall>x\<in>set xs. \<not> p x)"
  by (induction xs) (auto split: option.splits)

lemma findIndex_Some: "findIndex p xs = Some i \<Longrightarrow> i < length xs \<and> p (xs ! i)"
  by (induction xs arbitrary: i) (auto split: option.splits if_splits)

lemma pre_save_fields:
  "clicks (pre_save now u) = clicks u"
  "uniqueClicks (pre_save now u) = uniqueClicks u"
  "uniqueVisitors (pre_save now u) = uniqueVisitors u"
  "analytics (pre_save now u) = analytics u"
  "dailyStats (pre_save now u) = dailyStats u"
  "settings (pre_save now u) = settings u"
  "originalUrl (pre_save now u) = originalUrl u"
  "expiresAt (pre_save now u) = expiresAt u"
  by (simp_all add: pre_save_def Let_def split: option.splits)

lemma pre_save_unset: "expiresAt v = None \<Longrightarrow> pre_save now v = v\<lparr>updatedAt := now\<rparr>"
  by (simp add: pre_save_def Let_def)

lemma save_fields:
  "clicks (snd (save now u)) = clicks u"
  "uniqueClicks (snd (save now u)) = uniqueClicks u"
  "uniqueVisitors (snd (save now u)) = uniqueVisitors u"
  "analytics (snd (save now u)) = analytics u"
  "dailyStats (snd (save now u)) = dailyStats u"
  "settings (snd (save now u)) = settings u"
  "originalUrl (snd (save now u)) = originalUrl u"
  "expiresAt (snd (save now u)) = expiresAt u"
  by (simp_all add: save_def pre_save_fields)

lemma save_unset:
  assumes "expiresAt u = None"
  shows "status (snd (save now u)) = status u" and "isExpired (snd (save now u)) = isExpired u"
  using assms by (simp_all add: save_def pre_save_unset)

text \<open>On a link past its expiration the validator rejects every save.\<close>

lemma save_rejected_when_past:
  "expiresAt u = Some e \<Longrightarrow> e < now \<Longrightarrow> save now u = (False, u)"
  by (simp add: save_def validates_def)

lemma enrich_ipAddress: "ipAddress (enrich lookup st d) = ipAddress d"
  by (simp add: enrich_def split: option.splits)

lemma count_visit_fields:
  "clicks (count_visit now d u) = clicks u + 1"
  "analytics (count_visit now d u) = analytics u"
  "dailyStats (count_visit now d u) = dailyStats u"
  "settings (count_visit now d u) = settings u"
  "originalUrl (count_visit now d u) = originalUrl u"
  "expiresAt (count_visit now d u) = expiresAt u"
  "status (count_visit now d u) = status u"
  "isExpired (count_visit now d u) = isExpired u"
  by (simp_all add: count_visit_def Let_def split: option.splits)

lemma count_visit_uniqueClicks:
  "uniqueClicks (count_visit now d u) =
     (case findIndex (\<lambda>v. v_ipAddress v = ipAddress d) (uniqueVisitors u) of
        None \<Rightarrow> uniqueClicks u + 1 | Some i \<Rightarrow> uniqueClicks u)"
  by (simp add: count_visit_def Let_def split: option.splits)

lemma count_visit_uniqueVisitors:
  "uniqueVisitors (count_visit now d u) =
     (case findIndex (\<lambda>v. v_ipAddress v = ipAddress d) (uniqueVisitors u) of
        None \<Rightarrow> uniqueVisitors u @ [new_visitor now (ipAddress d)]
      | Some i \<Rightarrow> (uniqueVisitors u)[i := (uniqueVisitors u ! i)\<lparr>lastVisit := now,
                                    totalVisits := totalVisits (uniqueVisitors u ! i) + 1\<rparr>])"
  by (simp add: count_visit_def Let_def split: option.splits)

lemma append_event_fields:
  "clicks (append_event d u) = clicks u"
  "uniqueClicks (append_event d u) = uniqueClicks u"
  "uniqueVisitors (append_event d u) = uniqueVisitors u"
  "settings (append_event d u) = settings u"
  "originalUrl (append_event d u) = originalUrl u"
  "expiresAt (append_event d u) = expiresAt u"
  "status (append_event d u) = status u"
  "isExpired (append_event d u) = isExpired u"
  by (simp_all add: append_event_def Let_def)

text \<open>The document that a call leaves, by the way the call ends.\<close>

lemma recordClick_cases:
  obtains (threw) ds where
      "touch_today key_ok (setHours0 now)
         (findIndex (\<lambda>v. v_ipAddress v = ipAddress d) (uniqueVisitors u) = None)
         (enrich lookup (settings u) d)
         (dailyStats u) = (False, ds)"
      "fst (recordClick_run key_ok lookup now d u) = Threw"
      "recordClick key_ok lookup now d u
         = (count_visit now (enrich lookup (settings u) d) u)\<lparr>dailyStats := ds\<rparr>"
  | (pushed) ds where
      "touch_today key_ok (setHours0 now)
         (findIndex (\<lambda>v. v_ipAddress v = ipAddress d) (uniqueVisitors u) = None)
         (enrich lookup (settings u) d)
         (dailyStats u) = (True, ds)"
      "fst (recordClick_run key_ok lookup now d u) \<noteq> Threw"
      "recordClick key_ok lookup now d u
         = snd (save now (append_event (enrich lookup (settings u) d)
                  ((count_visit now (enrich lookup (settings u) d) u)\<lparr>dailyStats := ds\<rparr>)))"
proof -
  let ?data = "enrich lookup (settings u) d"
  let ?t = "touch_today key_ok (setHours0 now)
         (findIndex (\<lambda>v. v_ipAddress v = ipAddress d) (uniqueVisitors u) = None) ?data
         (dailyStats u)"
  obtain ok ds where t: "?t = (ok, ds)" by (cases ?t)
  show thesis
  proof (cases ok)
    case True
    have r: "recordClick_run key_ok lookup now d u =
       (case save now (append_event ?data ((count_visit now ?data u)\<lparr>dailyStats := ds\<rparr>)) of
          (True, v) \<Rightarrow> (Saved, v) | (False, v) \<Rightarrow> (Rejected, v))"
      using t True
      by (simp add: recordClick_run_def Let_def enrich_ipAddress count_visit_fields)
    obtain b v where s: "save now (append_event ?data ((count_visit now ?data u)\<lparr>dailyStats := ds\<rparr>)) = (b, v)"
      by (cases "save now (append_event ?data ((count_visit now ?data u)\<lparr>dailyStats := ds\<rparr>))")
    have "fst (recordClick_run key_ok lookup now d u) \<noteq> Threw"
      by (cases b) (simp_all add: r s)
    moreover have "recordClick key_ok lookup now d u = v"
      by (cases b) (simp_all add: recordClick_def r s)
    ultimately show thesis using pushed[of ds] t True s by simp
  next
    case False
    have r: "recordClick_run key_ok lookup now d u =
       (Threw, (count_visit now ?data u)\<lparr>dailyStats := ds\<rparr>)"
      using t False
      by (simp add: recordClick_run_def Let_def enrich_ipAddress count_visit_fields)
    show thesis using threw[of ds] t False by (simp add: recordClick_def r)
  qed
qed

lemma recordClick_clicks: "clicks (recordClick key_ok lookup now d u) = clicks u + 1"
  by (rule recordClick_cases[where key_ok=key_ok and now=now and d=d and u=u and lookup=lookup])
     (simp_all add: save_fields append_event_fields count_visit_fields)

lemma recordClick_settings: "settings (recordClick key_ok lookup now d u) = settings u"
  by (rule recordClick_cases[where key_ok=key_ok and now=now and d=d and u=u and lookup=lookup])
     (simp_all add: save_fields append_event_fields count_visit_fields)

lemma recordClick_originalUrl: "originalUrl (recordClick key_ok lookup now d u) = originalUrl u"
  by (rule recordClick_cases[where key_ok=key_ok and now=now and d=d and u=u and lookup=lookup])
     (simp_all add: save_fields append_event_fields count_visit_fields)

lemma recordClick_expiresAt: "expiresAt (recordClick key_ok lookup now d u) = expiresAt u"
  by (rule recordClick_cases[where key_ok=key_ok and now=now and d=d and u=u and lookup=lookup])
     (simp_all add: save_fields append_event_fields count_visit_fields)

lemma recordClick_uniqueClicks_case:
  "uniqueClicks (recordClick key_ok lookup now d u) =
     (case findIndex (\<lambda>v. v_ipAddress v = ipAddress d) (uniqueVisitors u) of
        None \<Rightarrow> uniqueClicks u + 1 | Some i \<Rightarrow> uniqueClicks u)"
  by (rule recordClick_cases[where key_ok=key_ok and now=now and d=d and u=u and lookup=lookup])
     (simp_all add: save_fields append_event_fields count_visit_uniqueClicks enrich_ipAddress
        split: option.splits)

lemma recordClick_uniqueVisitors_case:
  "uniqueVisitors (recordClick key_ok lookup now d u) =
     (case findIndex (\<lambda>v. v_ipAddress v = ipAddress d) (uniqueVisitors u) of
        None \<Rightarrow> uniqueVisitors u @ [new_visitor now (ipAddress d)]
      | Some i \<Rightarrow> (uniqueVisitors u)[i := (uniqueVisitors u ! i)\<lparr>lastVisit := now,
                                    totalVisits := totalVisits (uniqueVisitors u ! i) + 1\<rparr>])"
  by (rule recordClick_cases[where key_ok=key_ok and now=now and d=d and u=u and lookup=lookup])
     (simp_all add: save_fields append_event_fields count_visit_uniqueVisitors enrich_ipAddress
        split: option.splits)

lemma findIndex_ledger:
  "(findIndex (\<lambda>v. v_ipAddress v = ip) (uniqueVisitors u) = None) = (ip \<notin> ledger_ips u)"
  by (auto simp add: findIndex_None_iff ledger_ips_def)

lemma recordClick_uniqueClicks:
  "uniqueClicks (recordClick key_ok lookup now d u) =
     uniqueClicks u + (if ipAddress d \<in> ledger_ips u then 0 else 1)"
proof (cases "findIndex (\<lambda>v. v_ipAddress v = ipAddress d) (uniqueVisitors u)")
  case None
  then show ?thesis using findIndex_ledger[of "ipAddress d" u]
    by (simp add: recordClick_uniqueClicks_case)
next
  case (Some i)
  then show ?thesis using findIndex_ledger[of "ipAddress d" u]
    by (simp add: recordClick_uniqueClicks_case)
qed

lemma recordClick_ledger:
  "ledger_ips (recordClick key_ok lookup now d u) = insert (ipAddress d) (ledger_ips u)"
proof (cases "findIndex (\<lambda>v. v_ipAddress v = ipAddress d) (uniqueVisitors u)")
  case None
  then show ?thesis
    by (simp add: recordClick_uniqueVisitors_case ledger_ips_def new_visitor_def)
next
  case (Some i)
  from findIndex_Some[OF Some] have i: "i < length (uniqueVisitors u)"
    and ip: "v_ipAddress (uniqueVisitors u ! i) = ipAddress d" by auto
  let ?v = "(uniqueVisitors u ! i)\<lparr>lastVisit := now, totalVisits := totalVisits (uniqueVisitors u ! i) + 1\<rparr>"
  have "map v_ipAddress ((uniqueVisitors u)[i := ?v]) = (map v_ipAddress (uniqueVisitors u))[i := v_ipAddress ?v]"
    by (simp add: map_update)
  also have "\<dots> = map v_ipAddress (uniqueVisitors u)"
    using i by (simp add: list_update_same_conv)
  finally have "set (map v_ipAddress ((uniqueVisitors u)[i := ?v])) = set (map v_ipAddress (uniqueVisitors u))"
    by simp
  then have eq: "ledger_ips (recordClick key_ok lookup now d u) = ledger_ips u"
    using Some by (simp add: recordClick_uniqueVisitors_case ledger_ips_def)
  have "ipAddress d \<in> ledger_ips u"
    using findIndex_ledger[of "ipAddress d" u] Some by simp
  with eq show ?thesis by auto
qed

lemma card_step:
  assumes "finite S"
  shows "int (card (insert a S - V)) = (if a \<in> V then 0 else 1) + int (card (S - insert a V))"
proof (cases "a \<in> V")
  case True
  then have "insert a S - V = S - insert a V" by blast
  then have "card (insert a S - V) = card (S - insert a V)" by (rule arg_cong)
  with True show ?thesis by (simp only: if_True add_0 of_nat_eq_iff)
next
  case False
  let ?T = "S - insert a V"
  from False have e: "insert a S - V = insert a ?T" by blast
  have n: "a \<notin> ?T" by blast
  have f: "finite ?T" using assms by (rule finite_Diff)
  have "card (insert a ?T) = Suc (card ?T)" using f n by (rule card_insert_disjoint)
  then have "card (insert a S - V) = Suc (card ?T)" using e by (simp only:)
  then have "int (card (insert a S - V)) = 1 + int (card ?T)" by (simp only: of_nat_Suc)
  with False show ?thesis by (simp only: if_False)
qed

lemma recordClicks_clicks:
  "clicks (recordClicks key_ok lookup cs u) = clicks u + int (length cs)"
  by (induction cs arbitrary: u) (simp_all add: recordClick_clicks)

lemma recordClicks_uniqueClicks:
  "uniqueClicks (recordClicks key_ok lookup cs u) =
     uniqueClicks u + int (card ((\<lambda>c. ipAddress (snd c)) ` set cs - ledger_ips u))"
proof (induction cs arbitrary: u)
  case Nil
  show ?case by simp
next
  case (Cons c cs)
  let ?S = "(\<lambda>c. ipAddress (snd c)) ` set cs"
  let ?a = "ipAddress (snd c)"
  let ?u = "recordClick key_ok lookup (fst c) (snd c) u"
  have fin: "finite ?S" by simp
  have img: "(\<lambda>c. ipAddress (snd c)) ` set (c # cs) = insert ?a ?S" by simp
  have "uniqueClicks (recordClicks key_ok lookup (c # cs) u)
      = uniqueClicks (recordClicks key_ok lookup cs ?u)"
    by simp
  also have "\<dots> = uniqueClicks ?u + int (card (?S - ledger_ips ?u))"
    by (rule Cons.IH)
  also have "\<dots> = uniqueClicks u + ((if ?a \<in> ledger_ips u then 0 else 1)
                      + int (card (?S - insert ?a (ledger_ips u))))"
    by (simp only: recordClick_uniqueClicks recordClick_ledger add.assoc)
  also have "\<dots> = uniqueClicks u + int (card (insert ?a ?S - ledger_ips u))"
    by (simp only: card_step[OF fin])
  finally show ?case by (simp only: img)
qed

section \<open>Counting clicks and unique visitors\<close>

text \<open>
  Claim C3. On a link with no clicks and an empty ledger, after any sequence of
  \<open>recordClick\<close> calls \<open>clicks\<close> is the number of calls and \<open>uniqueClicks\<close> is the number of
  distinct addresses among them: \<open>N\<close> calls from pairwise distinct addresses give
  \<open>clicks = uniqueClicks = N\<close>, and \<open>N > 0\<close> calls from one address give \<open>uniqueClicks = 1\<close>.
  This holds of the document in memory however each call ends, since the counters are
  written before anything that can fail.
\<close>

theorem recordClicks_counts:
  assumes "clicks u = 0" and "uniqueClicks u = 0" and "uniqueVisitors u = []"
  shows "clicks (recordClicks key_ok lookup cs u) = int (length cs) \<and>
         uniqueClicks (recordClicks key_ok lookup cs u)
           = int (card (set (map (\<lambda>c. ipAddress (snd c)) cs))) \<and>
         (distinct (map (\<lambda>c. ipAddress (snd c)) cs) \<longrightarrow>
            uniqueClicks (recordClicks key_ok lookup cs u) = int (length cs)) \<and>
         (cs \<noteq> [] \<and> (\<forall>c \<in> set cs. ipAddress (snd c) = ip) \<longrightarrow>
            uniqueClicks (recordClicks key_ok lookup cs u) = 1)"
proof -
  let ?ips = "map (\<lambda>c. ipAddress (snd c)) cs"
  have c: "clicks (recordClicks key_ok lookup cs u) = int (length cs)"
    using assms(1) by (simp add: recordClicks_clicks)
  have "ledger_ips u = {}" using assms(3) by (simp add: ledger_ips_def)
  then have uq: "uniqueClicks (recordClicks key_ok lookup cs u) = int (card (set ?ips))"
    using assms(2) by (simp add: recordClicks_uniqueClicks)
  have d: "distinct ?ips \<longrightarrow> uniqueClicks (recordClicks key_ok lookup cs u) = int (length cs)"
  proof
    assume "distinct ?ips"
    then have "card (set ?ips) = length ?ips" by (rule distinct_card)
    then show "uniqueClicks (recordClicks key_ok lookup cs u) = int (length cs)" using uq by simp
  qed
  have s: "cs \<noteq> [] \<and> (\<forall>c \<in> set cs. ipAddress (snd c) = ip) \<longrightarrow>
            uniqueClicks (recordClicks key_ok lookup cs u) = 1"
  proof
    assume a: "cs \<noteq> [] \<and> (\<forall>c \<in> set cs. ipAddress (snd c) = ip)"
    then have "set ?ips = {ip}" by (cases cs) auto
    then show "uniqueClicks (recordClicks key_ok lookup cs u) = 1" using uq by simp
  qed
  from c uq d s show ?thesis by (intro conjI)
qed

lemma sample_click_ip: "ipAddress (sample_click a) = a"
  by (simp add: sample_click_def analyticsData_def sample_request_def)

theorem recordClicks_counts_witness:
  "clicks sample_url = 0 \<and> uniqueClicks sample_url = 0 \<and> uniqueVisitors sample_url = [] \<and>
   distinct (map (\<lambda>c. ipAddress (snd c))
      [(5000::int, sample_click ''10.0.0.1''), (6000, sample_click ''10.0.0.2'')]) \<and>
   clicks (recordClicks no_dot no_geo
      [(5000::int, sample_click ''10.0.0.1''), (6000, sample_click ''10.0.0.2'')] sample_url) = 2 \<and>
   uniqueClicks (recordClicks no_dot no_geo
      [(5000::int, sample_click ''10.0.0.1''), (6000, sample_click ''10.0.0.2'')] sample_url) = 2 \<and>
   [(5000::int, sample_click ''10.0.0.1''), (6000, sample_click ''10.0.0.1'')] \<noteq> [] \<and>
   map (\<lambda>c. ipAddress (snd c))
      [(5000::int, sample_click ''10.0.0.1''), (6000, sample_click ''10.0.0.1'')]
     = [''10.0.0.1'', ''10.0.0.1''] \<and>
   uniqueClicks (recordClicks no_dot no_geo
      [(5000::int, sample_click ''10.0.0.1''), (6000, sample_click ''10.0.0.1'')] sample_url) = 1"
proof -
  let ?cs1 = "[(5000::int, sample_click ''10.0.0.1''), (6000, sample_click ''10.0.0.2'')]"
  let ?cs2 = "[(5000::int, sample_click ''10.0.0.1''), (6000, sample_click ''10.0.0.1'')]"
  have f: "clicks sample_url = 0" "uniqueClicks sample_url = 0" "uniqueVisitors sample_url = []"
    by (simp_all add: sample_url_def)
  have d: "distinct (map (\<lambda>c. ipAddress (snd c)) ?cs1)"
    by (simp add: sample_click_ip)
  have s: "?cs2 \<noteq> [] \<and> (\<forall>c \<in> set ?cs2. ipAddress (snd c) = ''10.0.0.1'')"
    by (simp add: sample_click_ip)
  note t1 = recordClicks_counts[OF f, of no_dot no_geo ?cs1 "''10.0.0.1''"]
  note t2 = recordClicks_counts[OF f, of no_dot no_geo ?cs2 "''10.0.0.1''"]
  from t1 have "clicks (recordClicks no_dot no_geo ?cs1 sample_url) = int (length ?cs1)"
    by (rule conjunct1)
  then have c1: "clicks (recordClicks no_dot no_geo ?cs1 sample_url) = 2"
    by simp
  from t1[THEN conjunct2, THEN conjunct2, THEN conjunct1, THEN mp, OF d]
  have u1: "uniqueClicks (recordClicks no_dot no_geo ?cs1 sample_url) = 2"
    by simp
  from t2[THEN conjunct2, THEN conjunct2, THEN conjunct2, THEN mp, OF s]
  have u2: "uniqueClicks (recordClicks no_dot no_geo ?cs2 sample_url) = 1" .
  have m: "map (\<lambda>c. ipAddress (snd c)) ?cs2 = [''10.0.0.1'', ''10.0.0.1'']"
    by (simp add: sample_click_ip)
  have ne: "?cs2 \<noteq> []" by simp
  from f d ne m c1 u1 u2 show ?thesis by (intro conjI)
qed

lemma recordClick_status_unset:
  assumes "expiresAt u = None"
  shows "status (recordClick key_ok lookup now d u) = status u"
    and "isExpired (recordClick key_ok lookup now d u) = isExpired u"
proof -
  have "status (recordClick key_ok lookup now d u) = status u
      \<and> isExpired (recordClick key_ok lookup now d u) = isExpired u"
  proof (rule recordClick_cases[where key_ok=key_ok and now=now and d=d and u=u and lookup=lookup])
    fix ds
    assume "recordClick key_ok lookup now d u
         = (count_visit now (enrich lookup (settings u) d) u)\<lparr>dailyStats := ds\<rparr>"
    then show ?thesis by (simp add: count_visit_fields)
  next
    fix ds
    let ?v = "append_event (enrich lookup (settings u) d)
                  ((count_visit now (enrich lookup (settings u) d) u)\<lparr>dailyStats := ds\<rparr>)"
    assume r: "recordClick key_ok lookup now d u = snd (save now ?v)"
    have e: "expiresAt ?v = None"
      using assms by (simp add: append_event_fields count_visit_fields)
    show ?thesis
      by (simp add: r save_unset[OF e] append_event_fields count_visit_fields)
  qed
  then show "status (recordClick key_ok lookup now d u) = status u"
    and "isExpired (recordClick key_ok lookup now d u) = isExpired u" by simp_all
qed

lemma checkExpiration_fst:
  "fst (checkExpiration now u) = (case expiresAt u of None \<Rightarrow> False | Some e \<Rightarrow> now > e)"
  by (simp add: checkExpiration_def Let_def split: option.splits)

lemma checkExpiration_not_expired:
  "\<not> fst (checkExpiration now u) \<Longrightarrow> checkExpiration now u = (False, u)"
  by (simp add: checkExpiration_def Let_def split: option.splits if_splits)

text \<open>
  The first call on a link past its expiration sets the two fields in memory; the save it
  starts is rejected by the validator of \<open>expiresAt\<close>, so nothing else changes.
\<close>

lemma checkExpiration_flags:
  assumes "expiresAt u = Some e" and "e < now" and "\<not> isExpired u"
  shows "checkExpiration now u = (True, u\<lparr>isExpired := True, status := Expired\<rparr>)"
proof -
  have "save now (u\<lparr>isExpired := True, status := Expired\<rparr>)
      = (False, u\<lparr>isExpired := True, status := Expired\<rparr>)"
    using assms by (intro save_rejected_when_past[where e=e]) simp_all
  then show ?thesis using assms by (simp add: checkExpiration_def)
qed

lemma checkExpiration_originalUrl: "originalUrl (snd (checkExpiration now u)) = originalUrl u"
  by (simp add: checkExpiration_def Let_def save_fields split: option.splits)

lemma redirect_route_not_expired:
  assumes "\<not> fst (checkExpiration now u)"
  shows "redirect_route key_ok lookup parse now req (Some u) =
           (case h_user_agent req of
              None \<Rightarrow> (Status500, Some u)
            | Some h \<Rightarrow>
                (if redirectType (settings u) = Delayed
                 then DelayedPage (redirectDelay (settings u)) (originalUrl u)
                 else RedirectTo (originalUrl u),
                 Some (recordClick key_ok lookup now (analyticsData now req h (parse h)) u)))"
  using checkExpiration_not_expired[OF assms]
  by (simp add: redirect_route_def Let_def recordClick_settings recordClick_originalUrl
      split: option.splits)

lemma redirect_route_expired:
  assumes "fst (checkExpiration now u)"
  shows "redirect_route key_ok lookup parse now req (Some u) =
           (Status410, Some (snd (checkExpiration now u)))"
proof -
  obtain v where "checkExpiration now u = (True, v)"
    using assms by (cases "checkExpiration now u") auto
  then show ?thesis by (simp add: redirect_route_def)
qed

section \<open>Links without an expiration\<close>

text \<open>
  Claim C10. On a link whose \<open>expiresAt\<close> is unset, \<open>checkExpiration\<close> returns false and
  leaves the whole document as it is. Neither the save with its hook, nor \<open>recordClick\<close>,
  nor the redirect route changes \<open>status\<close> or \<open>isExpired\<close> of such a link, and \<open>expiresAt\<close>
  stays unset.
\<close>

theorem checkExpiration_unset:
  assumes "expiresAt u = None"
  shows "checkExpiration now u = (False, u) \<and>
         status (pre_save now u) = status u \<and> isExpired (pre_save now u) = isExpired u \<and>
         status (snd (save now u)) = status u \<and> isExpired (snd (save now u)) = isExpired u \<and>
         status (recordClick key_ok lookup now d u) = status u \<and>
         isExpired (recordClick key_ok lookup now d u) = isExpired u \<and>
         expiresAt (recordClick key_ok lookup now d u) = None \<and>
         map_option status (snd (redirect_route key_ok lookup parse now req (Some u)))
           = Some (status u) \<and>
         map_option isExpired (snd (redirect_route key_ok lookup parse now req (Some u)))
           = Some (isExpired u)"
proof -
  have a: "checkExpiration now u = (False, u)"
    using assms by (simp add: checkExpiration_def)
  have b: "status (pre_save now u) = status u \<and> isExpired (pre_save now u) = isExpired u"
    using assms by (simp add: pre_save_unset)
  have b': "status (snd (save now u)) = status u \<and> isExpired (snd (save now u)) = isExpired u"
    using save_unset[OF assms] by simp
  have c: "status (recordClick key_ok lookup now d u) = status u"
    and d: "isExpired (recordClick key_ok lookup now d u) = isExpired u"
    using assms by (rule recordClick_status_unset)+
  have e: "expiresAt (recordClick key_ok lookup now d u) = None"
    using assms by (simp add: recordClick_expiresAt)
  have n: "\<not> fst (checkExpiration now u)" using a by simp
  have f: "map_option status (snd (redirect_route key_ok lookup parse now req (Some u)))
      = Some (status u)"
    using assms
    by (simp add: redirect_route_not_expired[OF n] recordClick_status_unset split: option.splits)
  have g: "map_option isExpired (snd (redirect_route key_ok lookup parse now req (Some u)))
           = Some (isExpired u)"
    using assms
    by (simp add: redirect_route_not_expired[OF n] recordClick_status_unset split: option.splits)
  from a b b' c d e f g show ?thesis by (intro conjI) (elim conjE, assumption)+
qed

theorem checkExpiration_unset_witness:
  "expiresAt sample_url = None \<and> checkExpiration 5000 sample_url = (False, sample_url) \<and>
   status (recordClick no_dot no_geo 5000 (sample_click ''10.0.0.1'') sample_url) = Active"
proof -
  have e: "expiresAt sample_url = None" by (simp add: sample_url_def)
  have s: "status sample_url = Active" by (simp add: sample_url_def)
  note t = checkExpiration_unset[OF e, of 5000 no_dot no_geo "sample_click ''10.0.0.1''"
      sample_parser "sample_request ''10.0.0.1''"]
  from t have a: "checkExpiration 5000 sample_url = (False, sample_url)" by (rule conjunct1)
  from t[THEN conjunct2, THEN conjunct2, THEN conjunct2, THEN conjunct2, THEN conjunct2,
      THEN conjunct1] s
  have b: "status (recordClick no_dot no_geo 5000 (sample_click ''10.0.0.1'') sample_url) = Active"
    by (simp only:)
  from e a b show ?thesis by (intro conjI)
qed

section \<open>Links past their expiration\<close>

text \<open>
  Claim C6. On a link whose \<open>expiresAt\<close> is set and in the past, \<open>checkExpiration\<close> returns
  true and leaves \<open>isExpired\<close> set. The call that finds the flag unset sets \<open>status\<close> to
  \<open>Expired\<close>; a call that finds it set changes nothing. Every later call on the resulting
  document returns true and leaves it unchanged.
\<close>

theorem checkExpiration_past:
  assumes "expiresAt u = Some e" and "e < now" and "e < now'"
  shows "fst (checkExpiration now u) = True \<and>
         isExpired (snd (checkExpiration now u)) \<and>
         (\<not> isExpired u \<longrightarrow> status (snd (checkExpiration now u)) = Expired) \<and>
         (isExpired u \<longrightarrow> snd (checkExpiration now u) = u) \<and>
         checkExpiration now' (snd (checkExpiration now u)) = (True, snd (checkExpiration now u))"
proof (cases "isExpired u")
  case True
  then have "checkExpiration now u = (True, u)"
    using assms by (simp add: checkExpiration_def)
  moreover have "checkExpiration now' u = (True, u)"
    using True assms by (simp add: checkExpiration_def)
  ultimately show ?thesis using True by simp
next
  case False
  let ?v = "u\<lparr>isExpired := True, status := Expired\<rparr>"
  have r: "checkExpiration now u = (True, ?v)"
    using assms(1,2) False by (rule checkExpiration_flags)
  have v: "isExpired ?v" "status ?v = Expired" "expiresAt ?v = Some e"
    using assms by simp_all
  have "checkExpiration now' ?v = (True, ?v)"
    using v assms(3) by (simp add: checkExpiration_def)
  with r v False show ?thesis by simp
qed

theorem checkExpiration_past_witness:
  "expiresAt expiring_url = Some 4000 \<and> (4000::int) < 5000 \<and> (4000::int) < 6000 \<and>
   \<not> isExpired expiring_url \<and>
   fst (checkExpiration 5000 expiring_url) = True \<and>
   status (snd (checkExpiration 5000 expiring_url)) = Expired \<and>
   checkExpiration 6000 (snd (checkExpiration 5000 expiring_url))
     = (True, snd (checkExpiration 5000 expiring_url))"
proof -
  have e: "expiresAt expiring_url = Some 4000"
    by (simp add: expiring_url_def)
  have n: "\<not> isExpired expiring_url"
    by (simp add: expiring_url_def sample_url_def)
  have l: "(4000::int) < 5000" "(4000::int) < 6000" by simp_all
  note t = checkExpiration_past[OF e l]
  from t have a: "fst (checkExpiration 5000 expiring_url) = True" by (rule conjunct1)
  from t[THEN conjunct2, THEN conjunct2, THEN conjunct1, THEN mp, OF n]
  have b: "status (snd (checkExpiration 5000 expiring_url)) = Expired" .
  from t[THEN conjunct2, THEN conjunct2, THEN conjunct2, THEN conjunct2]
  have c: "checkExpiration 6000 (snd (checkExpiration 5000 expiring_url))
     = (True, snd (checkExpiration 5000 expiring_url))" .
  from e l n a b c show ?thesis by (intro conjI)
qed

section \<open>Which links the redirect route sends on\<close>

text \<open>
  Claim C2, as stated, fails: the route never reads \<open>status\<close>. A link with status
  \<open>Blocked\<close> and no expiration is not redirectable by the rule of the specification, and
  the route answers with a redirect to its target.
\<close>

theorem blocked_link_redirected:
  "status blocked_url = Blocked \<and> \<not> redirectable_spec 5000 blocked_url \<and>
   fst (redirect_route no_dot no_geo sample_parser 5000 (sample_request ''10.0.0.1'')
          (Some blocked_url)) = RedirectTo (originalUrl blocked_url)"
proof -
  have s: "status blocked_url = Blocked" by (simp add: blocked_url_def)
  have r: "\<not> redirectable_spec 5000 blocked_url"
    by (simp add: redirectable_spec_def blocked_url_def)
  have n: "\<not> fst (checkExpiration 5000 blocked_url)"
    by (simp add: checkExpiration_fst blocked_url_def sample_url_def)
  have d: "redirectType (settings blocked_url) \<noteq> Delayed"
    by (simp add: blocked_url_def sample_url_def sample_settings_def)
  have h: "h_user_agent (sample_request ''10.0.0.1'') = Some ''zzz''"
    by (simp add: sample_request_def)
  have "fst (redirect_route no_dot no_geo sample_parser 5000 (sample_request ''10.0.0.1'')
          (Some blocked_url)) = RedirectTo (originalUrl blocked_url)"
    by (simp only: redirect_route_not_expired[OF n] h option.case fst_conv d if_False)
  with s r show ?thesis by (intro conjI)
qed

text \<open>
  Claim C2, amended. For every resolved link the handler answers 410 if and only if
  \<open>expiresAt\<close> is set and before \<open>now\<close>. Otherwise, whatever the status, it sends the
  visitor on to \<open>originalUrl\<close> (by a redirect, or by the delayed page when the redirect type
  is \<open>Delayed\<close>) if the request carries a \<open>User-Agent\<close> header, and answers 500 if it does
  not.
\<close>

theorem redirect_route_sends:
  "fst (redirect_route key_ok lookup parse now req (Some u)) =
     (if (case expiresAt u of None \<Rightarrow> False | Some e \<Rightarrow> e < now) then Status410
      else case h_user_agent req of
             None \<Rightarrow> Status500
           | Some h \<Rightarrow>
               if redirectType (settings u) = Delayed
               then DelayedPage (redirectDelay (settings u)) (originalUrl u)
               else RedirectTo (originalUrl u)) \<and>
   (sends_to (fst (redirect_route key_ok lookup parse now req (Some u))) (originalUrl u)
      \<longleftrightarrow> h_user_agent req \<noteq> None
           \<and> (case expiresAt u of None \<Rightarrow> True | Some e \<Rightarrow> now \<le> e)) \<and>
   (fst (redirect_route key_ok lookup parse now req (Some u)) = Status410
      \<longleftrightarrow> (case expiresAt u of None \<Rightarrow> False | Some e \<Rightarrow> e < now)) \<and>
   (fst (redirect_route key_ok lookup parse now req (Some u)) = Status500
      \<longleftrightarrow> h_user_agent req = None
           \<and> (case expiresAt u of None \<Rightarrow> True | Some e \<Rightarrow> now \<le> e))"
proof (cases "fst (checkExpiration now u)")
  case True
  then have "case expiresAt u of None \<Rightarrow> False | Some e \<Rightarrow> e < now"
    by (simp add: checkExpiration_fst)
  then have "\<not> (case expiresAt u of None \<Rightarrow> True | Some e \<Rightarrow> now \<le> e)"
    and "case expiresAt u of None \<Rightarrow> False | Some e \<Rightarrow> e < now"
    by (simp_all split: option.splits)
  then show ?thesis by (simp add: redirect_route_expired[OF True])
next
  case False
  then have "\<not> (case expiresAt u of None \<Rightarrow> False | Some e \<Rightarrow> e < now)"
    by (simp add: checkExpiration_fst)
  then have p: "case expiresAt u of None \<Rightarrow> True | Some e \<Rightarrow> now \<le> e"
    and q: "\<not> (case expiresAt u of None \<Rightarrow> False | Some e \<Rightarrow> e < now)"
    by (simp_all split: option.splits)
  show ?thesis
  proof (cases "h_user_agent req")
    case None
    with p q show ?thesis by (simp add: redirect_route_not_expired[OF False])
  next
    case (Some h)
    with p q show ?thesis by (simp add: redirect_route_not_expired[OF False])
  qed
qed

theorem redirect_route_sends_witness:
  "status dated_url = Blocked \<and> expiresAt dated_url = Some 5000 \<and>
   sends_to (fst (redirect_route no_dot no_geo sample_parser 5000 (sample_request ''10.0.0.1'')
                    (Some dated_url))) (originalUrl dated_url) \<and>
   fst (redirect_route no_dot no_geo sample_parser 5001 (sample_request ''10.0.0.1'')
          (Some dated_url)) = Status410 \<and>
   fst (redirect_route no_dot no_geo sample_parser 5000
          ((sample_request ''10.0.0.1'')\<lparr>h_user_agent := None\<rparr>) (Some dated_url)) = Status500"
proof -
  have s: "status dated_url = Blocked" by (simp add: dated_url_def)
  have e: "expiresAt dated_url = Some 5000" by (simp add: dated_url_def)
  have h: "h_user_agent (sample_request ''10.0.0.1'') \<noteq> None"
    by (simp add: sample_request_def)
  from redirect_route_sends[of no_dot no_geo sample_parser 5000 "sample_request ''10.0.0.1''"
      dated_url, THEN conjunct2, THEN conjunct1]
  have a: "sends_to (fst (redirect_route no_dot no_geo sample_parser 5000
      (sample_request ''10.0.0.1'') (Some dated_url))) (originalUrl dated_url)"
    by (simp add: e h)
  from redirect_route_sends[of no_dot no_geo sample_parser 5001 "sample_request ''10.0.0.1''"
      dated_url, THEN conjunct2, THEN conjunct2, THEN conjunct1]
  have b: "fst (redirect_route no_dot no_geo sample_parser 5001 (sample_request ''10.0.0.1'')
          (Some dated_url)) = Status410"
    by (simp add: e)
  from redirect_route_sends[of no_dot no_geo sample_parser 5000
      "(sample_request ''10.0.0.1'')\<lparr>h_user_agent := None\<rparr>"
      dated_url, THEN conjunct2, THEN conjunct2, THEN conjunct2]
  have c: "fst (redirect_route no_dot no_geo sample_parser 5000
          ((sample_request ''10.0.0.1'')\<lparr>h_user_agent := None\<rparr>) (Some dated_url)) = Status500"
    by (simp add: e)
  from s e a b c show ?thesis by (intro conjI)
qed


lemma slice_last_short: "length xs \<le> n \<Longrightarrow> slice_last n xs = xs"
  by (simp add: slice_last_def)


lemma append_event_analytics:
  "analytics (append_event d u) = slice_last 1000 (analytics u @ [cast_event d])"
proof (cases "length (analytics u @ [cast_event d]) > 1000")
  case True
  then show ?thesis by (simp add: append_event_def Let_def)
next
  case False
  then have "slice_last 1000 (analytics u @ [cast_event d]) = analytics u @ [cast_event d]"
    by (intro slice_last_short) simp
  with False show ?thesis by (simp add: append_event_def Let_def)
qed

lemma append_event_dailyStats:
  "dailyStats (append_event d u) = slice_last 30 (dailyStats u)"
proof (cases "length (dailyStats u) > 30")
  case True
  then show ?thesis by (simp add: append_event_def Let_def)
next
  case False
  then have "slice_last 30 (dailyStats u) = dailyStats u"
    by (intro slice_last_short) simp
  with False show ?thesis by (simp add: append_event_def Let_def)
qed

lemma touch_today_length:
  "length (snd (touch_today key_ok today isNew d ds)) \<le> Suc (length ds)"
  by (simp add: touch_today_def split: option.splits prod.splits)


lemma recordClick_threw_iff:
  "fst (recordClick_run key_ok lookup now d u) = Threw
     \<longleftrightarrow> \<not> fst (today_of key_ok lookup now d u)"
  by (rule recordClick_cases[where key_ok=key_ok and now=now and d=d and u=u and lookup=lookup])
     (simp_all add: today_of_def findIndex_ledger)

lemma recordClick_analytics:
  "analytics (recordClick key_ok lookup now d u) =
     (if fst (recordClick_run key_ok lookup now d u) = Threw then analytics u
      else slice_last 1000 (analytics u @ [cast_event (enrich lookup (settings u) d)]))"
  by (rule recordClick_cases[where key_ok=key_ok and now=now and d=d and u=u and lookup=lookup])
     (simp_all add: save_fields append_event_analytics count_visit_fields)

lemma recordClick_dailyStats:
  "dailyStats (recordClick key_ok lookup now d u) =
     (if fst (recordClick_run key_ok lookup now d u) = Threw
      then snd (today_of key_ok lookup now d u)
      else slice_last 30 (snd (today_of key_ok lookup now d u)))"
  by (rule recordClick_cases[where key_ok=key_ok and now=now and d=d and u=u and lookup=lookup])
     (simp_all add: save_fields append_event_dailyStats count_visit_fields today_of_def
        findIndex_ledger)



lemma recordClicks_settings: "settings (recordClicks key_ok lookup cs u) = settings u"
  by (induction cs arbitrary: u) (simp_all add: recordClick_settings)




lemma set_label_ok:
  "(if truthy label then key_ok label else True) \<Longrightarrow>
     set_label key_ok label m = Some (if truthy label then bump m label else m)"
  by (simp add: set_label_def split: if_splits)

lemma update_daily_stat_ok:
  assumes "labels_ok key_ok d"
  shows "fst (update_daily_stat key_ok isNew d s)"
proof -
  from assms have c: "if truthy (or_empty (country d)) then key_ok (or_empty (country d)) else True"
    and dv: "if truthy (device d) then key_ok (device d) else True"
    and b: "if truthy (browser d) then key_ok (browser d) else True"
    and r: "if truthy (referrer d) then key_ok (referrer d) else True"
    by (simp_all add: labels_ok_def)
  have c': "\<And>m. set_label key_ok (or_empty (country d)) m
      = Some (if truthy (or_empty (country d)) then bump m (or_empty (country d)) else m)"
    using c by (rule set_label_ok)
  have dv': "\<And>m. set_label key_ok (device d) m
      = Some (if truthy (device d) then bump m (device d) else m)"
    using dv by (rule set_label_ok)
  have b': "\<And>m. set_label key_ok (browser d) m
      = Some (if truthy (browser d) then bump m (browser d) else m)"
    using b by (rule set_label_ok)
  have r': "\<And>m. set_label key_ok (referrer d) m
      = Some (if truthy (referrer d) then bump m (referrer d) else m)"
    using r by (rule set_label_ok)
  show ?thesis
    by (simp add: update_daily_stat_def Let_def c' dv' b' r')
qed

lemma touch_today_ok:
  "labels_ok key_ok d \<Longrightarrow> fst (touch_today key_ok today isNew d ds)"
  using update_daily_stat_ok[of key_ok d]
  by (simp add: touch_today_def split: option.splits prod.splits) (metis fst_conv)


section \<open>The bounds of the log and of the daily statistics\<close>


lemma enrich_no_geo: "enrich no_geo st d = d"
  by (simp add: enrich_def no_geo_def)

lemma sample_click_labels: "labels_ok no_dot (sample_click ip)"
  by (simp add: labels_ok_def sample_click_def analyticsData_def sample_request_def
      sample_agent_def or_empty_def truthy_def no_dot_def)

lemma setHours0_small: "setHours0 5000 = 0" "setHours0 6000 = 0"
  by (simp_all add: setHours0_def msPerDay_def)

lemma sample_url_fields:
  "analytics sample_url = []" "dailyStats sample_url = []" "expiresAt sample_url = None"
  "settings sample_url = sample_settings" "uniqueVisitors sample_url = []"
  by (simp_all add: sample_url_def)

lemma once_clicked_pushed:
  "fst (recordClick_run no_dot no_geo 5000 (sample_click ''10.0.0.1'') sample_url) \<noteq> Threw"
proof -
  have "fst (today_of no_dot no_geo 5000 (sample_click ''10.0.0.1'') sample_url)"
    unfolding today_of_def by (rule touch_today_ok) (simp add: enrich_no_geo sample_click_labels)
  then show ?thesis by (simp add: recordClick_threw_iff)
qed

lemma once_clicked_dailyStats: "dailyStats once_clicked = [new_daily_stat 0]"
proof -
  have "snd (today_of no_dot no_geo 5000 (sample_click ''10.0.0.1'') sample_url)
      = [new_daily_stat 0]"
    by (simp add: today_of_def touch_today_def sample_url_fields setHours0_small)
  then show ?thesis
    using once_clicked_pushed
    by (simp add: once_clicked_def recordClick_dailyStats slice_last_def)
qed

lemma touch_today_fst:
  "fst (touch_today key_ok today isNew d ds) =
     (case findIndex (\<lambda>stat. date stat = today) ds of
        None \<Rightarrow> True
      | Some i \<Rightarrow> fst (update_daily_stat key_ok isNew d (ds ! i)))"
  by (simp add: touch_today_def split: option.splits prod.splits)

text \<open>
  The second click of a day with a referrer that holds a dot: \<open>referrers.set\<close> throws, the
  call ends before the push and the log stays as it was.
\<close>

lemma dotted_click_throws:
  "fst (recordClick_run no_dot no_geo 6000 dotted_click once_clicked) = Threw"
proof -
  have "\<not> fst (update_daily_stat no_dot isNew dotted_click (new_daily_stat 0))" for isNew
    by (simp add: update_daily_stat_def Let_def set_label_def truthy_def or_empty_def no_dot_def
        dotted_click_def sample_click_def analyticsData_def sample_request_def sample_agent_def
        new_daily_stat_def)
  then have "\<not> fst (today_of no_dot no_geo 6000 dotted_click once_clicked)"
    by (simp add: today_of_def touch_today_fst once_clicked_dailyStats setHours0_small
        enrich_no_geo new_daily_stat_def)
  then show ?thesis by (simp add: recordClick_threw_iff)
qed


lemma last_slice_last: "0 < n \<Longrightarrow> last (slice_last n (xs @ [a])) = a"
  by (simp add: slice_last_def)

lemma enrich_keeps:
  "device (enrich lookup st d) = device d"
  "browser (enrich lookup st d) = browser d"
  by (simp_all add: enrich_def split: option.splits)

lemma cast_event_keeps:
  "device (cast_event d) = device d"
  "browser (cast_event d) = browser d"
  "country (cast_event d) = Some (or_empty (country d))"
  "city (cast_event d) = Some (or_empty (city d))"
  "region (cast_event d) = Some (or_empty (region d))"
  "timezone (cast_event d) = Some (or_empty (timezone d))"
  "location (cast_event d) = Some (case location d of None \<Rightarrow> (0, 0) | Some p \<Rightarrow> p)"
  by (simp_all add: cast_event_def)

lemma cast_event_timeOnPage:
  "timeOnPage (cast_event d) =
     (case timeOnPage d of Missing \<Rightarrow> Parsed 0 | Unparsed \<Rightarrow> Unparsed | Parsed t \<Rightarrow> Parsed t)"
  by (simp add: cast_event_def)

lemma enrich_timeOnPage: "timeOnPage (enrich lookup st d) = timeOnPage d"
  by (simp add: enrich_def split: option.splits)

text \<open>The first click of a day cannot throw.\<close>

lemma first_of_day_pushed:
  "dailyStats u = [] \<Longrightarrow> fst (recordClick_run key_ok lookup now d u) \<noteq> Threw"
  by (simp add: recordClick_threw_iff today_of_def touch_today_fst)

lemma quiet_url_fields:
  "analytics quiet_url = []" "dailyStats quiet_url = []"
  "trackDeviceInfo (settings quiet_url) = False"
  by (simp_all add: quiet_url_def sample_url_def)

section \<open>What the tracking settings gate\<close>

text \<open>
  Claim C9, as stated, fails twice. With \<open>trackLocation\<close> on, an address the lookup does
  not know is recorded without geo data: the stored country is the schema's default, the
  empty string. With \<open>trackDeviceInfo\<close> off, the event recorded for a request still carries
  the device and the browser: the setting is read nowhere.
\<close>

theorem settings_do_not_gate:
  "trackLocation (settings sample_url) \<and>
   map country (analytics (recordClick no_dot no_geo 5000 (sample_click ''10.0.0.1'') sample_url))
     = [Some []] \<and>
   \<not> trackDeviceInfo (settings quiet_url) \<and>
   map device (analytics (recordClick no_dot sample_geo 5000
        (analyticsData 5000 (sample_request ''8.8.8.8'') ''zzz'' (sample_parser ''zzz''))
        quiet_url)) = [''desktop''] \<and>
   map browser (analytics (recordClick no_dot sample_geo 5000
        (analyticsData 5000 (sample_request ''8.8.8.8'') ''zzz'' (sample_parser ''zzz''))
        quiet_url)) = [''unknown'']"
proof -
  let ?d = "analyticsData 5000 (sample_request ''8.8.8.8'') ''zzz'' (sample_parser ''zzz'')"
  have a: "trackLocation (settings sample_url)"
    by (simp add: sample_url_def sample_settings_def)
  have p1: "fst (recordClick_run no_dot no_geo 5000 (sample_click ''10.0.0.1'') sample_url) \<noteq> Threw"
    by (rule first_of_day_pushed) (simp add: sample_url_fields)
  have b: "map country (analytics (recordClick no_dot no_geo 5000 (sample_click ''10.0.0.1'')
      sample_url)) = [Some []]"
    using p1
    by (simp add: recordClick_analytics sample_url_fields slice_last_def enrich_no_geo
        cast_event_keeps or_empty_def sample_click_def analyticsData_def)
  have c: "\<not> trackDeviceInfo (settings quiet_url)"
    by (simp add: quiet_url_fields)
  have p2: "fst (recordClick_run no_dot sample_geo 5000 ?d quiet_url) \<noteq> Threw"
    by (rule first_of_day_pushed) (simp add: quiet_url_fields)
  have d: "map device (analytics (recordClick no_dot sample_geo 5000 ?d quiet_url))
      = [''desktop'']"
    using p2
    by (simp add: recordClick_analytics quiet_url_fields slice_last_def enrich_keeps
        cast_event_keeps analyticsData_def sample_parser_def sample_agent_def)
  have e: "map browser (analytics (recordClick no_dot sample_geo 5000 ?d quiet_url))
      = [''unknown'']"
    using p2
    by (simp add: recordClick_analytics quiet_url_fields slice_last_def enrich_keeps
        cast_event_keeps analyticsData_def sample_parser_def sample_agent_def)
  from a b c d e show ?thesis by (intro conjI)
qed

text \<open>
  Claim C9, amended. A call of \<open>recordClick\<close> that reaches the push stores, as the last entry
  of the log, the caller's event after the geolocation step, cast to the schema; a call that
  throws before the push stores none. The geolocation step sets country, city, region,
  timezone and coordinates from the lookup if \<open>trackLocation\<close> is on, the address is not
  empty and the lookup knows it; otherwise it leaves the event as the caller built it. The
  cast keeps a geo field the event has and puts the schema's default, the empty string or
  the coordinates \<open>[0, 0]\<close>, where it has none. So for an event built by the redirect route
  the stored country is the lookup's under those three conditions and empty otherwise.
\<close>

theorem recordClick_enrichment:
  "(fst (recordClick_run key_ok lookup now d u) \<noteq> Threw \<longrightarrow>
      last (analytics (recordClick key_ok lookup now d u))
        = cast_event (enrich lookup (settings u) d)) \<and>
   (fst (recordClick_run key_ok lookup now d u) = Threw \<longrightarrow>
      analytics (recordClick key_ok lookup now d u) = analytics u) \<and>
   (\<forall>g. trackLocation (settings u) \<and> ipAddress d \<noteq> [] \<and> lookup (ipAddress d) = Some g \<longrightarrow>
      enrich lookup (settings u) d =
        d\<lparr>country := Some (geo_country g), city := Some (geo_city g),
          region := Some (geo_region g), timezone := Some (geo_timezone g),
          location := Some (snd (geo_ll g), fst (geo_ll g))\<rparr>) \<and>
   (\<not> trackLocation (settings u) \<or> ipAddress d = [] \<or> lookup (ipAddress d) = None \<longrightarrow>
      enrich lookup (settings u) d = d) \<and>
   country (cast_event e) = Some (case country e of None \<Rightarrow> [] | Some c \<Rightarrow> c) \<and>
   city (cast_event e) = Some (case city e of None \<Rightarrow> [] | Some c \<Rightarrow> c) \<and>
   region (cast_event e) = Some (case region e of None \<Rightarrow> [] | Some c \<Rightarrow> c) \<and>
   timezone (cast_event e) = Some (case timezone e of None \<Rightarrow> [] | Some c \<Rightarrow> c) \<and>
   location (cast_event e) = Some (case location e of None \<Rightarrow> (0, 0) | Some p \<Rightarrow> p) \<and>
   country (cast_event (enrich lookup (settings u) (analyticsData now req h ua))) =
     Some (if trackLocation (settings u) \<and> req_ip req \<noteq> []
           then (case lookup (req_ip req) of None \<Rightarrow> [] | Some g \<Rightarrow> geo_country g)
           else []) \<and>
   location (cast_event (enrich lookup (settings u) (analyticsData now req h ua))) =
     Some (if trackLocation (settings u) \<and> req_ip req \<noteq> []
           then (case lookup (req_ip req) of None \<Rightarrow> (0, 0)
                 | Some g \<Rightarrow> (snd (geo_ll g), fst (geo_ll g)))
           else (0, 0))"
proof -
  have a: "fst (recordClick_run key_ok lookup now d u) \<noteq> Threw \<longrightarrow>
      last (analytics (recordClick key_ok lookup now d u))
        = cast_event (enrich lookup (settings u) d)"
    by (simp add: recordClick_analytics last_slice_last)
  have a': "fst (recordClick_run key_ok lookup now d u) = Threw \<longrightarrow>
      analytics (recordClick key_ok lookup now d u) = analytics u"
    by (simp add: recordClick_analytics)
  have b: "\<forall>g. trackLocation (settings u) \<and> ipAddress d \<noteq> [] \<and> lookup (ipAddress d) = Some g \<longrightarrow>
      enrich lookup (settings u) d =
        d\<lparr>country := Some (geo_country g), city := Some (geo_city g),
          region := Some (geo_region g), timezone := Some (geo_timezone g),
          location := Some (snd (geo_ll g), fst (geo_ll g))\<rparr>"
    by (simp add: enrich_def truthy_def)
  have c: "\<not> trackLocation (settings u) \<or> ipAddress d = [] \<or> lookup (ipAddress d) = None \<longrightarrow>
      enrich lookup (settings u) d = d"
    by (auto simp add: enrich_def truthy_def)
  have k: "country (cast_event e) = Some (case country e of None \<Rightarrow> [] | Some c \<Rightarrow> c)"
    "city (cast_event e) = Some (case city e of None \<Rightarrow> [] | Some c \<Rightarrow> c)"
    "region (cast_event e) = Some (case region e of None \<Rightarrow> [] | Some c \<Rightarrow> c)"
    "timezone (cast_event e) = Some (case timezone e of None \<Rightarrow> [] | Some c \<Rightarrow> c)"
    "location (cast_event e) = Some (case location e of None \<Rightarrow> (0, 0) | Some p \<Rightarrow> p)"
    by (simp_all add: cast_event_def or_empty_def)
  have r1: "country (cast_event (enrich lookup (settings u) (analyticsData now req h ua))) =
     Some (if trackLocation (settings u) \<and> req_ip req \<noteq> []
           then (case lookup (req_ip req) of None \<Rightarrow> [] | Some g \<Rightarrow> geo_country g)
           else [])"
    by (simp add: cast_event_keeps or_empty_def enrich_def truthy_def analyticsData_def
        split: option.splits)
  have r2: "location (cast_event (enrich lookup (settings u) (analyticsData now req h ua))) =
     Some (if trackLocation (settings u) \<and> req_ip req \<noteq> []
           then (case lookup (req_ip req) of None \<Rightarrow> (0, 0)
                 | Some g \<Rightarrow> (snd (geo_ll g), fst (geo_ll g)))
           else (0, 0))"
    by (simp add: cast_event_keeps enrich_def truthy_def analyticsData_def
        split: option.splits)
  from a a' b c k r1 r2 show ?thesis by (intro conjI)
qed

theorem recordClick_enrichment_witness:
  "trackLocation (settings sample_url) \<and> ipAddress (sample_click ''8.8.8.8'') \<noteq> [] \<and>
   fst (recordClick_run no_dot sample_geo 5000 (sample_click ''8.8.8.8'') sample_url) \<noteq> Threw \<and>
   map country (analytics (recordClick no_dot sample_geo 5000 (sample_click ''8.8.8.8'')
      sample_url)) = [Some ''US''] \<and>
   \<not> trackLocation (settings (sample_url\<lparr>settings := sample_settings\<lparr>trackLocation := False\<rparr>\<rparr>)) \<and>
   enrich sample_geo (settings (sample_url\<lparr>settings := sample_settings\<lparr>trackLocation := False\<rparr>\<rparr>))
     (sample_click ''8.8.8.8'') = sample_click ''8.8.8.8'' \<and>
   country (cast_event (sample_click ''8.8.8.8'')) = Some [] \<and>
   fst (recordClick_run no_dot no_geo 6000 dotted_click once_clicked) = Threw \<and>
   analytics (recordClick no_dot no_geo 6000 dotted_click once_clicked) = analytics once_clicked"
proof -
  let ?g = "\<lparr>geo_country = ''US'', geo_city = ''Mountain View'', geo_region = ''CA'',
                 geo_timezone = ''America/Los_Angeles'', geo_ll = (37, -122)\<rparr>"
  let ?off = "sample_url\<lparr>settings := sample_settings\<lparr>trackLocation := False\<rparr>\<rparr>"
  have a: "trackLocation (settings sample_url)"
    by (simp add: sample_url_def sample_settings_def)
  have i: "ipAddress (sample_click ''8.8.8.8'') \<noteq> []"
    by (simp add: sample_click_ip)
  have l: "sample_geo (ipAddress (sample_click ''8.8.8.8'')) = Some ?g"
    by (simp add: sample_click_ip sample_geo_def)
  have p: "fst (recordClick_run no_dot sample_geo 5000 (sample_click ''8.8.8.8'') sample_url) \<noteq> Threw"
    by (rule first_of_day_pushed) (simp add: sample_url_fields)
  note t = recordClick_enrichment[of no_dot sample_geo 5000 "sample_click ''8.8.8.8''" sample_url
      "sample_click ''8.8.8.8''" "sample_request ''8.8.8.8''" "''zzz''" sample_agent]
  from t[THEN conjunct2, THEN conjunct2, THEN conjunct1, THEN spec, of ?g] a i l
  have en: "country (enrich sample_geo (settings sample_url) (sample_click ''8.8.8.8''))
     = Some ''US''"
    by simp
  have one: "analytics (recordClick no_dot sample_geo 5000 (sample_click ''8.8.8.8'') sample_url)
     = [last (analytics (recordClick no_dot sample_geo 5000 (sample_click ''8.8.8.8'') sample_url))]"
    using p by (simp add: recordClick_analytics sample_url_fields slice_last_def)
  have b: "map country (analytics (recordClick no_dot sample_geo 5000 (sample_click ''8.8.8.8'')
      sample_url)) = [Some ''US'']"
    by (subst one) (simp add: t[THEN conjunct1, THEN mp, OF p] cast_event_keeps en or_empty_def)
  have c: "\<not> trackLocation (settings ?off)"
    by simp
  note t' = recordClick_enrichment[of no_dot sample_geo 5000 "sample_click ''8.8.8.8''" ?off
      "sample_click ''8.8.8.8''" "sample_request ''8.8.8.8''" "''zzz''" sample_agent]
  from t'[THEN conjunct2, THEN conjunct2, THEN conjunct2, THEN conjunct1] c
  have d: "enrich sample_geo (settings ?off) (sample_click ''8.8.8.8'') = sample_click ''8.8.8.8''"
    by blast
  from t[THEN conjunct2, THEN conjunct2, THEN conjunct2, THEN conjunct2, THEN conjunct1]
  have e: "country (cast_event (sample_click ''8.8.8.8'')) = Some []"
    by (simp add: sample_click_def analyticsData_def)
  note t2 = recordClick_enrichment[of no_dot no_geo 6000 dotted_click once_clicked
      "sample_click ''8.8.8.8''" "sample_request ''8.8.8.8''" "''zzz''" sample_agent]
  from t2[THEN conjunct2, THEN conjunct1, THEN mp, OF dotted_click_throws]
  have f: "analytics (recordClick no_dot no_geo 6000 dotted_click once_clicked)
      = analytics once_clicked" .
  from a i p b c d e dotted_click_throws f show ?thesis by (intro conjI)
qed

section \<open>Classifying the visitor\<close>

text \<open>
  Claim C8, as stated, fails: for a user agent that the parser reports as neither mobile
  nor tablet the route records the device \<open>desktop\<close>, not \<open>other\<close>, and without an
  \<open>Accept-Language\<close> header it records the language \<open>unknown\<close>, not the empty string.
\<close>

theorem unknown_agent_is_desktop:
  "device (analyticsData 5000 (sample_request ''10.0.0.1'') ''zzz'' (sample_parser ''zzz''))
     = ''desktop'' \<and>
   device (analyticsData 5000 (sample_request ''10.0.0.1'') ''zzz'' (sample_parser ''zzz''))
     \<noteq> ''other'' \<and>
   language (analyticsData 5000 (sample_request ''10.0.0.1'') ''zzz'' (sample_parser ''zzz''))
     = ''unknown'' \<and>
   language (analyticsData 5000 (sample_request ''10.0.0.1'') ''zzz'' (sample_parser ''zzz''))
     \<noteq> []"
  by (simp add: analyticsData_def sample_request_def sample_parser_def sample_agent_def)

text \<open>
  Claim C8, amended. For a request that carries a \<open>User-Agent\<close> header, the classification
  the route records is a function of the parser's result and of the headers: the device is
  \<open>mobile\<close> for a mobile agent, else \<open>tablet\<close> for a tablet, else \<open>desktop\<close>, and never
  \<open>other\<close>; browser, version, operating system and platform are the strings the parser
  reports; the language is the text of \<open>Accept-Language\<close> before its first comma, and
  \<open>unknown\<close> when the header is absent or that text is empty, so it is never empty. The
  route records a click with this classification for a link that is not past its
  expiration. A request without a \<open>User-Agent\<close> header is not classified: the route
  records nothing and does not send the visitor on. The event built for a request passes
  the validation of the log's entries, the device being one of the schema's, unless the
  time on page of the query failed to parse.
\<close>

theorem analyticsData_classification:
  "device (analyticsData now req h ua) =
     (if isMobile ua then ''mobile'' else if isTablet ua then ''tablet'' else ''desktop'') \<and>
   device (analyticsData now req h ua) \<noteq> ''other'' \<and>
   browser (analyticsData now req h ua) = ua_browser ua \<and>
   browserVersion (analyticsData now req h ua) = ua_version ua \<and>
   os (analyticsData now req h ua) = ua_os ua \<and>
   platform (analyticsData now req h ua) = ua_platform ua \<and>
   language (analyticsData now req h ua) =
     (case h_accept_language req of
        None \<Rightarrow> ''unknown''
      | Some l \<Rightarrow>
          if takeWhile (\<lambda>c. c \<noteq> CHR '','') l = [] then ''unknown''
          else takeWhile (\<lambda>c. c \<noteq> CHR '','') l) \<and>
   language (analyticsData now req h ua) \<noteq> [] \<and>
   (h_accept_language req = None \<longrightarrow> language (analyticsData now req h ua) = ''unknown'') \<and>
   (\<forall>l. h_accept_language req = Some l \<and> takeWhile (\<lambda>c. c \<noteq> CHR '','') l = [] \<longrightarrow>
      language (analyticsData now req h ua) = ''unknown'') \<and>
   (\<forall>l. h_accept_language req = Some l \<and> takeWhile (\<lambda>c. c \<noteq> CHR '','') l \<noteq> [] \<longrightarrow>
      language (analyticsData now req h ua) = takeWhile (\<lambda>c. c \<noteq> CHR '','') l) \<and>
   (\<forall>a. h_user_agent req = Some a \<and> \<not> fst (checkExpiration now u) \<longrightarrow>
      snd (redirect_route key_ok lookup parse now req (Some u))
        = Some (recordClick key_ok lookup now (analyticsData now req a (parse a)) u)) \<and>
   (h_user_agent req = None \<longrightarrow>
      snd (redirect_route key_ok lookup parse now req (Some u))
        = Some (snd (checkExpiration now u)) \<and>
      \<not> sends_to (fst (redirect_route key_ok lookup parse now req (Some u))) (originalUrl u)) \<and>
   (valid_event (cast_event (enrich lookup (settings u) (analyticsData now req h ua)))
      \<longleftrightarrow> q_timeOnPage req \<noteq> Unparsed)"
proof -
  have c: "device (analyticsData now req h ua) =
     (if isMobile ua then ''mobile'' else if isTablet ua then ''tablet'' else ''desktop'') \<and>
   device (analyticsData now req h ua) \<noteq> ''other'' \<and>
   browser (analyticsData now req h ua) = ua_browser ua \<and>
   browserVersion (analyticsData now req h ua) = ua_version ua \<and>
   os (analyticsData now req h ua) = ua_os ua \<and>
   platform (analyticsData now req h ua) = ua_platform ua \<and>
   language (analyticsData now req h ua) =
     (case h_accept_language req of
        None \<Rightarrow> ''unknown''
      | Some l \<Rightarrow>
          if takeWhile (\<lambda>c. c \<noteq> CHR '','') l = [] then ''unknown''
          else takeWhile (\<lambda>c. c \<noteq> CHR '','') l) \<and>
   language (analyticsData now req h ua) \<noteq> [] \<and>
   (h_accept_language req = None \<longrightarrow> language (analyticsData now req h ua) = ''unknown'') \<and>
   (\<forall>l. h_accept_language req = Some l \<and> takeWhile (\<lambda>c. c \<noteq> CHR '','') l = [] \<longrightarrow>
      language (analyticsData now req h ua) = ''unknown'') \<and>
   (\<forall>l. h_accept_language req = Some l \<and> takeWhile (\<lambda>c. c \<noteq> CHR '','') l \<noteq> [] \<longrightarrow>
      language (analyticsData now req h ua) = takeWhile (\<lambda>c. c \<noteq> CHR '','') l)"
    by (simp add: analyticsData_def truthy_def Let_def split: option.splits)
  have r: "\<forall>a. h_user_agent req = Some a \<and> \<not> fst (checkExpiration now u) \<longrightarrow>
      snd (redirect_route key_ok lookup parse now req (Some u))
        = Some (recordClick key_ok lookup now (analyticsData now req a (parse a)) u)"
    by (simp add: redirect_route_not_expired)
  have n: "h_user_agent req = None \<longrightarrow>
      snd (redirect_route key_ok lookup parse now req (Some u))
        = Some (snd (checkExpiration now u)) \<and>
      \<not> sends_to (fst (redirect_route key_ok lookup parse now req (Some u))) (originalUrl u)"
  proof (cases "fst (checkExpiration now u)")
    case True
    then show ?thesis by (simp add: redirect_route_expired)
  next
    case False
    then show ?thesis
      using checkExpiration_not_expired[OF False] by (simp add: redirect_route_not_expired)
  qed
  have v: "valid_event (cast_event (enrich lookup (settings u) (analyticsData now req h ua)))
      \<longleftrightarrow> q_timeOnPage req \<noteq> Unparsed"
    by (simp add: valid_event_def cast_event_keeps enrich_keeps cast_event_timeOnPage
        enrich_timeOnPage analyticsData_def split: time_value.splits)
  from c r n v show ?thesis by (intro conjI) (elim conjE, assumption)+
qed

theorem analyticsData_classification_witness:
  "h_accept_language (sample_request ''10.0.0.1'') = None \<and>
   device (analyticsData 5000 (sample_request ''10.0.0.1'') ''zzz''
             (sample_agent\<lparr>isTablet := True\<rparr>)) = ''tablet'' \<and>
   language (analyticsData 5000 (sample_request ''10.0.0.1'') ''zzz''
               (sample_agent\<lparr>isTablet := True\<rparr>)) = ''unknown'' \<and>
   language (analyticsData 5000
               ((sample_request ''10.0.0.1'')\<lparr>h_accept_language := Some ''en-US,en;q=0.9''\<rparr>)
               ''zzz'' sample_agent) = ''en-US'' \<and>
   language (analyticsData 5000
               ((sample_request ''10.0.0.1'')\<lparr>h_accept_language := Some '',en''\<rparr>)
               ''zzz'' sample_agent) = ''unknown'' \<and>
   h_user_agent ((sample_request ''10.0.0.1'')\<lparr>h_user_agent := None\<rparr>) = None \<and>
   snd (redirect_route no_dot no_geo sample_parser 5000
          ((sample_request ''10.0.0.1'')\<lparr>h_user_agent := None\<rparr>) (Some sample_url))
     = Some sample_url"
proof -
  have h: "h_accept_language (sample_request ''10.0.0.1'') = None"
    by (simp add: sample_request_def)
  note t = analyticsData_classification[where now=5000 and req="sample_request ''10.0.0.1''"
      and h="''zzz''" and ua="sample_agent\<lparr>isTablet := True\<rparr>" and u=sample_url
      and key_ok=no_dot and lookup=no_geo and parse=sample_parser]
  from t[THEN conjunct1]
  have a: "device (analyticsData 5000 (sample_request ''10.0.0.1'') ''zzz''
             (sample_agent\<lparr>isTablet := True\<rparr>)) = ''tablet''"
    by (simp add: sample_agent_def)
  from t[THEN conjunct2, THEN conjunct2, THEN conjunct2, THEN conjunct2, THEN conjunct2,
      THEN conjunct2, THEN conjunct2, THEN conjunct2, THEN conjunct1, THEN mp, OF h]
  have b: "language (analyticsData 5000 (sample_request ''10.0.0.1'') ''zzz''
               (sample_agent\<lparr>isTablet := True\<rparr>)) = ''unknown''" .
  note t2 = analyticsData_classification[where now=5000
      and req="(sample_request ''10.0.0.1'')\<lparr>h_accept_language := Some ''en-US,en;q=0.9''\<rparr>"
      and h="''zzz''" and ua=sample_agent and u=sample_url
      and key_ok=no_dot and lookup=no_geo and parse=sample_parser]
  from t2[THEN conjunct2, THEN conjunct2, THEN conjunct2, THEN conjunct2, THEN conjunct2,
      THEN conjunct2, THEN conjunct2, THEN conjunct2, THEN conjunct2, THEN conjunct2,
      THEN conjunct1, THEN spec, of "''en-US,en;q=0.9''"]
  have c: "language (analyticsData 5000
               ((sample_request ''10.0.0.1'')\<lparr>h_accept_language := Some ''en-US,en;q=0.9''\<rparr>)
               ''zzz'' sample_agent) = ''en-US''"
    by simp
  note t3 = analyticsData_classification[where now=5000
      and req="(sample_request ''10.0.0.1'')\<lparr>h_accept_language := Some '',en''\<rparr>"
      and h="''zzz''" and ua=sample_agent and u=sample_url
      and key_ok=no_dot and lookup=no_geo and parse=sample_parser]
  from t3[THEN conjunct2, THEN conjunct2, THEN conjunct2, THEN conjunct2, THEN conjunct2,
      THEN conjunct2, THEN conjunct2, THEN conjunct2, THEN conjunct2, THEN conjunct1,
      THEN spec, of "'',en''"]
  have d: "language (analyticsData 5000
               ((sample_request ''10.0.0.1'')\<lparr>h_accept_language := Some '',en''\<rparr>)
               ''zzz'' sample_agent) = ''unknown''"
    by simp
  have hn: "h_user_agent ((sample_request ''10.0.0.1'')\<lparr>h_user_agent := None\<rparr>) = None"
    by simp
  note t4 = analyticsData_classification[where now=5000
      and req="(sample_request ''10.0.0.1'')\<lparr>h_user_agent := None\<rparr>"
      and h="''zzz''" and ua=sample_agent and u=sample_url
      and key_ok=no_dot and lookup=no_geo and parse=sample_parser]
  have ce: "snd (checkExpiration 5000 sample_url) = sample_url"
    by (simp add: checkExpiration_def sample_url_def)
  from t4[THEN conjunct2, THEN conjunct2, THEN conjunct2, THEN conjunct2, THEN conjunct2,
      THEN conjunct2, THEN conjunct2, THEN conjunct2, THEN conjunct2, THEN conjunct2,
      THEN conjunct2, THEN conjunct2, THEN conjunct1, THEN mp, OF hn, THEN conjunct1]
  have e: "snd (redirect_route no_dot no_geo sample_parser 5000
          ((sample_request ''10.0.0.1'')\<lparr>h_user_agent := None\<rparr>) (Some sample_url))
     = Some sample_url"
    by (simp only: ce)
  from h a b c d hn e show ?thesis by (intro conjI)
qed

lemma fdiv_int_one: "\<bar>n\<bar> < 2 ^ 53 \<Longrightarrow> fdiv (real_of_int n) 1 = real_of_int n"
  by (simp add: fdiv_def fl_of_int)

lemma fl_zero: "fl 0 = 0"
  by (simp add: fl_def)

lemma js_round_of_int: "js_round (real_of_int n) = n"
proof -
  have "\<lfloor>real_of_int n + 1 / 2\<rfloor> = n"
    by (rule floor_unique) simp_all
  then show ?thesis by (simp add: js_round_def)
qed

lemma round2_of_int:
  assumes "\<bar>n\<bar> < 90000000000000"
  shows "round2 (real_of_int n) = real_of_int n"
proof -
  have a: "\<bar>n * 100\<bar> < 2 ^ 53" using assms by (simp add: abs_mult)
  have b: "\<bar>n\<bar> < 2 ^ 53" using assms by simp
  have "fmul (real_of_int n) 100 = real_of_int (n * 100)"
    using fl_of_int[OF a] by (simp add: fmul_def)
  then have "round2 (real_of_int n) = fdiv (real_of_int (n * 100)) 100"
    by (simp only: round2_def js_round_of_int)
  also have "\<dots> = fl (real_of_int n)"
    by (simp add: fdiv_def)
  also have "\<dots> = real_of_int n" using b by (rule fl_of_int)
  finally show ?thesis .
qed

lemma round2_values: "round2 0 = 0" "round2 50 = 50" "round2 100 = 100" "round2 1000 = 1000"
  using round2_of_int[of 0] round2_of_int[of 50] round2_of_int[of 100] round2_of_int[of 1000]
  by simp_all

lemma getAnalyticsSummary_conversionRate:
  "conversionRate (getAnalyticsSummary now days u) =
     (if uniqueClicks u \<noteq> 0
      then toFixed2 (fdiv (real_of_int (clicks u)) (real_of_int (uniqueClicks u))) else 0)"
  by (simp add: getAnalyticsSummary_def Let_def)

lemma twice_clicked_counts: "clicks twice_clicked = 2" "uniqueClicks twice_clicked = 1"
proof -
  have l: "ledger_ips sample_url = {}" by (simp add: ledger_ips_def sample_url_def)
  show "clicks twice_clicked = 2"
    unfolding twice_clicked_def by (simp only: recordClicks_clicks) (simp add: sample_url_def)
  show "uniqueClicks twice_clicked = 1"
    unfolding twice_clicked_def
    by (simp only: recordClicks_uniqueClicks l) (simp add: sample_url_def sample_click_ip)
qed

lemma conversionRate_no_clicks:
  "clicks u = 0 \<Longrightarrow> conversionRate (getAnalyticsSummary now days u) = 0"
  by (simp add: getAnalyticsSummary_conversionRate toFixed2_def fdiv_def fl_zero)

section \<open>The conversion rate of a link\<close>

text \<open>
  Claim C1: the conversion rate of a link is \<open>uniqueClicks / clicks\<close>, rounded to two
  decimals. The code divides the other way round. After two clicks from one address
  (\<open>clicks = 2\<close>, \<open>uniqueClicks = 1\<close>) the summary reports 2, where the claim gives 0.5.
\<close>

theorem conversionRate_inverted:
  "clicks twice_clicked = 2 \<and> uniqueClicks twice_clicked = 1 \<and>
   conversionRate (getAnalyticsSummary 7000 30 twice_clicked) = 2 \<and>
   toFixed2 (real_of_int (uniqueClicks twice_clicked) / real_of_int (clicks twice_clicked)) = 1 / 2"
proof -
  note c = twice_clicked_counts
  have "fdiv 2 1 = 2" using fdiv_int_one[of 2] by simp
  then have a: "conversionRate (getAnalyticsSummary 7000 30 twice_clicked) = 2"
    by (simp add: getAnalyticsSummary_conversionRate c toFixed2_def)
  have b: "toFixed2 (real_of_int (uniqueClicks twice_clicked) / real_of_int (clicks twice_clicked))
     = 1 / 2"
    by (simp add: c toFixed2_def)
  from c a b show ?thesis by (intro conjI)
qed

lemma getAnalyticsSummary_averageTimeOnPage:
  "averageTimeOnPage (getAnalyticsSummary now days u) =
     js_div (foldl (\<lambda>sum stat. fadd sum (day_average stat)) 0
               (filter (\<lambda>stat. date stat \<ge> now - days * msPerDay) (dailyStats u)))
            (real (length (filter (\<lambda>stat. date stat \<ge> now - days * msPerDay) (dailyStats u))))"
  by (simp add: getAnalyticsSummary_def Let_def)

text \<open>With days in the window the result is a number: the sum of the days' averages over
  their count.\<close>

lemma averageTimeOnPage_mean:
  assumes "filter (\<lambda>stat. date stat \<ge> now - days * msPerDay) (dailyStats u) \<noteq> []"
  shows "averageTimeOnPage (getAnalyticsSummary now days u) =
     Num (fdiv (foldl (\<lambda>sum stat. fadd sum (day_average stat)) 0
                  (filter (\<lambda>stat. date stat \<ge> now - days * msPerDay) (dailyStats u)))
               (real (length (filter (\<lambda>stat. date stat \<ge> now - days * msPerDay) (dailyStats u)))))"
  using assms by (simp add: getAnalyticsSummary_averageTimeOnPage js_div_def)

section \<open>The average time on page of a link\<close>

text \<open>
  Claim C5: with no daily statistics in the window the average time on page is 0. The code
  divides the empty sum by the number of days without a guard: on a new link the result is
  \<open>0 / 0\<close>, that is \<open>NaN\<close>, while the average of the clicks per day, computed one line
  below with the guard, is 0.
\<close>

theorem averageTimeOnPage_not_guarded:
  "dailyStats sample_url = [] \<and>
   averageTimeOnPage (getAnalyticsSummary 7000 30 sample_url) = NaN \<and>
   averageTimeOnPage (getAnalyticsSummary 7000 30 sample_url) \<noteq> Num 0 \<and>
   averageClicksPerDay (getAnalyticsSummary 7000 30 sample_url) = 0"
proof -
  have d: "dailyStats sample_url = []" by (simp add: sample_url_def)
  have a: "averageTimeOnPage (getAnalyticsSummary 7000 30 sample_url) = NaN"
    by (simp add: getAnalyticsSummary_averageTimeOnPage d js_div_def)
  have b: "averageClicksPerDay (getAnalyticsSummary 7000 30 sample_url) = 0"
    by (simp add: getAnalyticsSummary_def Let_def d)
  from d a b show ?thesis by simp
qed

lemma foldl_sum:
  "foldl (\<lambda>sum stat. sum + f stat) (a::'a::monoid_add) xs = a + sum_list (map f xs)"
  by (induction xs arbitrary: a) (simp_all add: add.assoc)

lemma fdiv_one_two: "fdiv 1 2 = 1 / 2"
  using fl_half_of_int[of 1] by (simp add: fdiv_def)

lemma fmul_half_hundred: "fmul (1 / 2) 100 = 50"
  using fl_of_int[of 50] by (simp add: fmul_def)

lemma fmul_int_hundred:
  "\<bar>n * 100\<bar> < 2 ^ 53 \<Longrightarrow> fmul (real_of_int n) 100 = real_of_int (n * 100)"
  using fl_of_int[of "n * 100"] by (simp add: fmul_def)

section \<open>Growth in the portfolio statistics\<close>

text \<open>
  Claim C7, as stated, fails in both handlers. For two links of which one is older than
  a month, the handler on the full document reports the URL growth 50: it divides the
  number of links created within the month by the number of all links. For a baseline of one
  old link with no clicks and ten clicks in all, the handler on the small model reports the
  click growth 1000, not 100.
\<close>

theorem growth_not_as_claimed:
  "length two_urls = 2 \<and>
   length (filter (\<lambda>url. createdAt url < 5000) two_urls) = 1 \<and>
   urlGrowth (stats_summary 5000 two_urls) = 50 \<and>
   aggregate_clicks 5000 two_small_urls = [0] \<and>
   clicksGrowth (stats_summary_small 10000 5000 two_small_urls) = 1000"
proof -
  have a: "length two_urls = 2" by (simp add: two_urls_def)
  have b: "length (filter (\<lambda>url. createdAt url < 5000) two_urls) = 1"
    by (simp add: two_urls_def)
  have c: "urlGrowth (stats_summary 5000 two_urls) = round2 (fmul (fdiv 1 2) 100)"
    by (simp add: stats_summary_def Let_def two_urls_def)
  have d: "aggregate_clicks 5000 two_small_urls = [0]"
    by (simp add: aggregate_clicks_def Let_def two_small_urls_def)
  have "foldl (\<lambda>sum url. sum + su_clicks url) 0 two_small_urls = 10"
    by (simp add: two_small_urls_def)
  then have e: "clicksGrowth (stats_summary_small 10000 5000 two_small_urls)
      = round2 (fmul (fdiv 10 1) 100)"
    by (simp add: stats_summary_small_def Let_def d js_or_def)
  have f: "fdiv 10 1 = 10" using fdiv_int_one[of 10] by simp
  have g: "fmul 10 100 = 1000" using fmul_int_hundred[of 10] by simp
  from a b c d e show ?thesis
    by (simp add: fdiv_one_two fmul_half_hundred f g round2_values)
qed

lemma stats_summary_small_urlsGrowth:
  "urlsGrowth (stats_summary_small now lastMonth urls) =
     (if filter (\<lambda>url. su_createdAt url \<le> lastMonth) urls = [] then 100
      else round2 (fmul (fdiv (real_of_int (int (length urls)
                      - int (length (filter (\<lambda>url. su_createdAt url \<le> lastMonth) urls))))
                    (real (length (filter (\<lambda>url. su_createdAt url \<le> lastMonth) urls)))) 100))"
  by (simp add: stats_summary_small_def Let_def round2_values)

lemma stats_summary_small_clicksGrowth:
  "clicksGrowth (stats_summary_small now lastMonth urls) =
     (if filter (\<lambda>url. su_createdAt url \<le> lastMonth) urls = [] then 100
      else if sum_list (map su_clicks (filter (\<lambda>url. su_createdAt url \<le> lastMonth) urls)) = 0
      then round2 (fmul (fdiv (real_of_int (sum_list (map su_clicks urls))) 1) 100)
      else round2 (fmul (fdiv (real_of_int (sum_list (map su_clicks urls)
                      - sum_list (map su_clicks (filter (\<lambda>url. su_createdAt url \<le> lastMonth) urls))))
                    (real_of_int (sum_list (map su_clicks
                        (filter (\<lambda>url. su_createdAt url \<le> lastMonth) urls))))) 100))"
  by (simp add: stats_summary_small_def aggregate_clicks_def Let_def round2_values foldl_sum
      js_or_def)

lemma stats_summary_urlGrowth:
  "urlGrowth (stats_summary lastMonth urls) =
     (if urls = [] then 0
      else round2 (fmul (fdiv (real (length (filter (\<lambda>url. createdAt url \<ge> lastMonth) urls)))
                              (real (length urls))) 100))"
  by (simp add: stats_summary_def Let_def round2_values)

lemma stats_summary_clickGrowth:
  "clickGrowth (stats_summary lastMonth urls) =
     (if sum_list (map clicks urls) = 0 then 0
      else round2 (fmul (fdiv (real_of_int (sum_list (map (\<lambda>url. int (length (filter
                        (\<lambda>a. timestamp a \<ge> lastMonth) (analytics url)))) urls)))
                    (real_of_int (sum_list (map clicks urls)))) 100))"
  by (simp add: stats_summary_def Let_def foldl_sum round2_values)

subsection \<open>A growth that the exact quotient would round the other way\<close>

lemma fl_binade:
  assumes "2 powr real_of_int e \<le> \<bar>x\<bar>" and "\<bar>x\<bar> < 2 powr real_of_int (e + 1)"
  shows "fl x = real_of_int (round_even (x / 2 powr real_of_int (e - 52)))
                  * 2 powr real_of_int (e - 52)"
proof -
  have "0 < (2::real) powr real_of_int e" by simp
  with assms(1) have pos: "0 < \<bar>x\<bar>" by linarith
  then have x0: "x \<noteq> 0" by auto
  have a: "real_of_int e \<le> log 2 \<bar>x\<bar>"
    using pos assms(1) by (simp add: le_log_iff)
  have b: "log 2 \<bar>x\<bar> < real_of_int e + 1"
    using pos assms(2) by (simp add: log_less_iff)
  have "\<lfloor>log 2 \<bar>x\<bar>\<rfloor> = e"
    using a b by (rule floor_unique)
  then show ?thesis using x0 by (simp add: fl_def Let_def)
qed

lemma two_powr_neg: "(2::real) powr (- numeral n) = 1 / 2 ^ numeral n"
  by (simp add: powr_minus_divide)

lemma quotient_23_160: "fdiv 23 160 = 2589569785738035 / 18014398509481984"
proof -
  have "fl (23 / 160) = real_of_int (round_even (23 / 160 / 2 powr real_of_int (- 3 - 52)))
                  * 2 powr real_of_int (- 3 - 52)"
    by (rule fl_binade) (simp_all add: two_powr_neg)
  also have "23 / 160 / (2::real) powr real_of_int (- 3 - 52) = 23 * 2 ^ 50 / 5"
    by (simp add: two_powr_neg)
  also have "round_even (23 * 2 ^ 50 / 5) = 5179139571476070"
    by (simp add: round_even_def Let_def)
  finally show ?thesis by (simp add: fdiv_def two_powr_neg)
qed


lemma percent_23_160:
  "fmul (2589569785738035 / 18014398509481984) 100 = 8092405580431359 / 562949953421312"
proof -
  let ?x = "2589569785738035 / 18014398509481984 * (100::real)"
  have "fl ?x = real_of_int (round_even (?x / 2 powr real_of_int (3 - 52)))
                  * 2 powr real_of_int (3 - 52)"
    by (rule fl_binade) (simp_all add: two_powr_neg)
  also have "?x / (2::real) powr real_of_int (3 - 52) = 64739244643450875 / 8"
    by (simp add: two_powr_neg)
  also have "round_even (64739244643450875 / 8) = 8092405580431359"
    by (simp add: round_even_def Let_def)
  finally show ?thesis by (simp add: fmul_def two_powr_neg)
qed

lemma scaled_23_160:
  "fmul (8092405580431359 / 562949953421312) 100 = 6322191859711999 / 4398046511104"
proof -
  let ?x = "8092405580431359 / 562949953421312 * (100::real)"
  have "fl ?x = real_of_int (round_even (?x / 2 powr real_of_int (10 - 52)))
                  * 2 powr real_of_int (10 - 52)"
    by (rule fl_binade) (simp_all add: two_powr_neg)
  also have "?x / (2::real) powr real_of_int (10 - 52) = 202310139510783975 / 32"
    by (simp add: two_powr_neg)
  also have "round_even (202310139510783975 / 32) = 6322191859711999"
    by (simp add: round_even_def Let_def)
  finally show ?thesis by (simp add: fmul_def two_powr_neg)
qed

lemma js_round_scaled_23_160: "js_round (6322191859711999 / 4398046511104) = 1437"
  by (simp add: js_round_def)

lemma fdiv_1437_100: "fdiv 1437 100 = 8089590830664253 / 562949953421312"
proof -
  have "fl (1437 / 100) = real_of_int (round_even (1437 / 100 / 2 powr real_of_int (3 - 52)))
                  * 2 powr real_of_int (3 - 52)"
    by (rule fl_binade) (simp_all add: two_powr_neg)
  also have "1437 / 100 / (2::real) powr real_of_int (3 - 52) = 1437 * 2 ^ 47 / 25"
    by (simp add: two_powr_neg)
  also have "round_even (1437 * 2 ^ 47 / 25) = 8089590830664253"
    by (simp add: round_even_def Let_def)
  finally show ?thesis by (simp add: fdiv_def two_powr_neg)
qed

text \<open>
  A rounding that the exact quotient would miss: for a baseline of 160 links and 183 in
  all, the growth \<open>23 / 160 * 100\<close> is 14.375 exactly, but the doubles give
  14.374999999999998, and the result is the double of 14.37, not of 14.38.
\<close>

lemma growth_23_over_160:
  "round2 (fmul (fdiv 23 160) 100) = fdiv 1437 100"
  "fdiv 1437 100 = 8089590830664253 / 562949953421312"
  by (simp_all add: round2_def quotient_23_160 percent_23_160 scaled_23_160 js_round_scaled_23_160 fdiv_1437_100)

text \<open>
  Claim C7, amended. All quotients and products are those of doubles, each rounded to the
  nearest double, and the result is rounded to two decimals by
  \<open>Math.round(x * 100) / 100\<close>. In the handler on the small model the baseline is the set of
  links created a month ago or earlier. Its URL growth is 100 when there is no such link
  and otherwise the difference of the link counts over the baseline count, times 100; with a
  baseline of one link and two links in all it is 100. Its click growth is 100 when there is
  no such link, the total clicks over 1, times 100, when those links have no clicks, and
  otherwise the difference of the click sums over the baseline sum, times 100. In the
  handler on the full document the URL growth is the share of links created within the
  month, times 100, and 0 without links; the click growth is the share of logged clicks
  within the month among all clicks, times 100, and 0 without clicks.
\<close>

theorem growth_as_computed:
  "urlsGrowth (stats_summary_small now lastMonth urls) =
     (if filter (\<lambda>url. su_createdAt url \<le> lastMonth) urls = [] then 100
      else round2 (fmul (fdiv (real_of_int (int (length urls)
                      - int (length (filter (\<lambda>url. su_createdAt url \<le> lastMonth) urls))))
                    (real (length (filter (\<lambda>url. su_createdAt url \<le> lastMonth) urls)))) 100)) \<and>
   clicksGrowth (stats_summary_small now lastMonth urls) =
     (if filter (\<lambda>url. su_createdAt url \<le> lastMonth) urls = [] then 100
      else if sum_list (map su_clicks (filter (\<lambda>url. su_createdAt url \<le> lastMonth) urls)) = 0
      then round2 (fmul (fdiv (real_of_int (sum_list (map su_clicks urls))) 1) 100)
      else round2 (fmul (fdiv (real_of_int (sum_list (map su_clicks urls)
                      - sum_list (map su_clicks (filter (\<lambda>url. su_createdAt url \<le> lastMonth) urls))))
                    (real_of_int (sum_list (map su_clicks
                        (filter (\<lambda>url. su_createdAt url \<le> lastMonth) urls))))) 100)) \<and>
   (length urls = 2 \<and> length (filter (\<lambda>url. su_createdAt url \<le> lastMonth) urls) = 1 \<longrightarrow>
      urlsGrowth (stats_summary_small now lastMonth urls) = 100) \<and>
   urlGrowth (stats_summary lastMonth links) =
     (if links = [] then 0
      else round2 (fmul (fdiv (real (length (filter (\<lambda>url. createdAt url \<ge> lastMonth) links)))
                              (real (length links))) 100)) \<and>
   clickGrowth (stats_summary lastMonth links) =
     (if sum_list (map clicks links) = 0 then 0
      else round2 (fmul (fdiv (real_of_int (sum_list (map (\<lambda>url. int (length (filter
                        (\<lambda>a. timestamp a \<ge> lastMonth) (analytics url)))) links)))
                    (real_of_int (sum_list (map clicks links)))) 100))"
proof -
  have p: "length urls = 2 \<and> length (filter (\<lambda>url. su_createdAt url \<le> lastMonth) urls) = 1 \<longrightarrow>
      urlsGrowth (stats_summary_small now lastMonth urls) = 100"
  proof
    assume h: "length urls = 2 \<and> length (filter (\<lambda>url. su_createdAt url \<le> lastMonth) urls) = 1"
    then have ne: "filter (\<lambda>url. su_createdAt url \<le> lastMonth) urls \<noteq> []" by auto
    have f: "fdiv 1 1 = 1" using fdiv_int_one[of 1] by simp
    have g: "fmul 1 100 = 100" using fmul_int_hundred[of 1] by simp
    show "urlsGrowth (stats_summary_small now lastMonth urls) = 100"
      using h ne by (simp add: stats_summary_small_urlsGrowth f g round2_values)
  qed
  show ?thesis
    by (intro conjI stats_summary_small_urlsGrowth stats_summary_small_clicksGrowth p
        stats_summary_urlGrowth stats_summary_clickGrowth)
qed

theorem growth_as_computed_witness:
  "length two_small_urls = 2 \<and>
   length (filter (\<lambda>url. su_createdAt url \<le> 5000) two_small_urls) = 1 \<and>
   urlsGrowth (stats_summary_small 10000 5000 two_small_urls) = 100 \<and>
   length many_small_urls = 183 \<and>
   length (filter (\<lambda>url. su_createdAt url \<le> 5000) many_small_urls) = 160 \<and>
   urlsGrowth (stats_summary_small 10000 5000 many_small_urls) = fdiv 1437 100 \<and>
   fdiv 1437 100 = 8089590830664253 / 562949953421312"
proof -
  have h: "length two_small_urls = 2 \<and>
     length (filter (\<lambda>url. su_createdAt url \<le> 5000) two_small_urls) = 1"
    by (simp add: two_small_urls_def)
  from growth_as_computed[of 10000 5000 two_small_urls two_urls,
      THEN conjunct2, THEN conjunct2, THEN conjunct1, THEN mp, OF h]
  have a: "urlsGrowth (stats_summary_small 10000 5000 two_small_urls) = 100" .
  have l: "length many_small_urls = 183"
    by (simp add: many_small_urls_def)
  have f: "filter (\<lambda>url. su_createdAt url \<le> 5000) many_small_urls =
      replicate 160 \<lparr>su_clicks = 0, su_createdAt = 1000, su_lastClickedAt = None\<rparr>"
    by (simp add: many_small_urls_def)
  have fc: "length (filter (\<lambda>url. su_createdAt url \<le> 5000) many_small_urls) = 160"
    by (simp only: f length_replicate)
  have ne: "filter (\<lambda>url. su_createdAt url \<le> 5000) many_small_urls \<noteq> []"
    using fc by auto
  from growth_as_computed[of 10000 5000 many_small_urls two_urls, THEN conjunct1]
  have "urlsGrowth (stats_summary_small 10000 5000 many_small_urls) =
      round2 (fmul (fdiv (real_of_int (int 183 - int 160)) (real (160::nat))) 100)"
    by (simp only: ne if_False l fc)
  then have b: "urlsGrowth (stats_summary_small 10000 5000 many_small_urls) = fdiv 1437 100"
    by (simp add: growth_23_over_160(1))
  note c = growth_23_over_160(2)
  from h a l fc b c show ?thesis by (intro conjI) (elim conjE, assumption)+
qed

subsection \<open>Other roundings that the exact quotient would miss\<close>

lemma fdiv_107_40: "fdiv 107 40 = 3011782250804019 / 1125899906842624"
proof -
  have "fl (107 / 40) = real_of_int (round_even (107 / 40 / 2 powr real_of_int (1 - 52)))
                  * 2 powr real_of_int (1 - 52)"
    by (rule fl_binade) (simp_all add: two_powr_neg)
  also have "107 / 40 / (2::real) powr real_of_int (1 - 52) = 107 * 2 ^ 48 / 5"
    by (simp add: two_powr_neg)
  also have "round_even (107 * 2 ^ 48 / 5) = 6023564501608038"
    by (simp add: round_even_def Let_def)
  finally show ?thesis by (simp add: fdiv_def two_powr_neg)
qed

text \<open>
  \<open>(107 / 40).toFixed(2)\<close> is \<open>2.67\<close>: the double of 2.675 lies below it.
\<close>

lemma toFixed2_107_40: "toFixed2 (fdiv 107 40) = 267 / 100"
  by (simp add: fdiv_107_40 toFixed2_def)

lemma fdiv_23_40: "fdiv 23 40 = 2589569785738035 / 4503599627370496"
proof -
  have "fl (23 / 40) = real_of_int (round_even (23 / 40 / 2 powr real_of_int (- 1 - 52)))
                  * 2 powr real_of_int (- 1 - 52)"
    by (rule fl_binade) (simp_all add: two_powr_neg)
  also have "23 / 40 / (2::real) powr real_of_int (- 1 - 52) = 23 * 2 ^ 50 / 5"
    by (simp add: two_powr_neg)
  also have "round_even (23 * 2 ^ 50 / 5) = 5179139571476070"
    by (simp add: round_even_def Let_def)
  finally show ?thesis by (simp add: fdiv_def two_powr_neg)
qed

lemma fmul_23_40_100:
  "fmul (2589569785738035 / 4503599627370496) 100 = 8092405580431359 / 140737488355328"
proof -
  let ?x = "2589569785738035 / 4503599627370496 * (100::real)"
  have "fl ?x = real_of_int (round_even (?x / 2 powr real_of_int (5 - 52)))
                  * 2 powr real_of_int (5 - 52)"
    by (rule fl_binade) (simp_all add: two_powr_neg)
  also have "?x / (2::real) powr real_of_int (5 - 52) = 64739244643450875 / 8"
    by (simp add: two_powr_neg)
  also have "round_even (64739244643450875 / 8) = 8092405580431359"
    by (simp add: round_even_def Let_def)
  finally show ?thesis by (simp add: fmul_def two_powr_neg)
qed

text \<open>
  \<open>Math.round((23 / 40) * 100)\<close> is 57: the product of the doubles is 57.49999999999999.
\<close>

lemma js_round_23_40: "js_round (fmul (fdiv 23 40) 100) = 57"
  by (simp add: fdiv_23_40 fmul_23_40_100 js_round_def)

lemma conversionRate_107_40:
  "conversionRate (getAnalyticsSummary now days (u\<lparr>clicks := 107, uniqueClicks := 40\<rparr>))
     = 267 / 100"
  by (simp add: getAnalyticsSummary_conversionRate toFixed2_107_40)

end
